theory Spec2Isabelle
  imports Main "HOL-Library.Multiset"
begin

section \<open>advanced-yara-tool.sh: the JSON results built from the YARA output\<close>

text \<open>
  Lines 272--317 of \<^verbatim>\<open>advanced-yara-tool.sh\<close> run a Python program that reads the
  file of YARA matches line by line, groups the lines by their first word and prints
  one JSON document. Strings are lists of characters; a Python \<^verbatim>\<open>dict\<close> keeps its
  keys in insertion order, so it is an association list with distinct keys.
\<close>

subsection \<open>Python strings and dicts\<close>

definition py_isspace :: "char \<Rightarrow> bool" where
  \<comment> \<open>\<^verbatim>\<open>str.isspace\<close> on the code points below 256: TAB, LF, VT, FF, CR, FS, GS, RS, US,
      SPACE, NEL and NBSP.\<close>
  "py_isspace c =
     (c \<in> set [CHR 0x09, CHR 0x0A, CHR 0x0B, CHR 0x0C, CHR 0x0D, CHR 0x1C, CHR 0x1D,
                CHR 0x1E, CHR 0x1F, CHR 0x20, CHR 0x85, CHR 0xA0])"

definition py_strip :: "string \<Rightarrow> string" where
  \<comment> \<open>\<^verbatim>\<open>s.strip()\<close>: whitespace removed at both ends.\<close>
  "py_strip s = rev (dropWhile py_isspace (rev (dropWhile py_isspace s)))"

definition split_once :: "string \<Rightarrow> string list" where
  \<comment> \<open>\<^verbatim>\<open>s.split(' ', 1)\<close>: cut at the first space, if there is one.\<close>
  "split_once s =
     (if CHR '' '' \<in> set s
      then [takeWhile (\<lambda>c. c \<noteq> CHR '' '') s, tl (dropWhile (\<lambda>c. c \<noteq> CHR '' '') s)]
      else [s])"

fun dict_set :: "'k \<Rightarrow> 'v \<Rightarrow> ('k \<times> 'v) list \<Rightarrow> ('k \<times> 'v) list" where
  \<comment> \<open>\<^verbatim>\<open>d[k] = v\<close>: an existing key keeps its place, a new key goes last.\<close>
  "dict_set k v [] = [(k, v)]"
| "dict_set k v (p # d) = (if fst p = k then (k, v) # d else p # dict_set k v d)"

fun dict_apply :: "'k \<Rightarrow> ('v \<Rightarrow> 'v) \<Rightarrow> ('k \<times> 'v) list \<Rightarrow> ('k \<times> 'v) list" where
  \<comment> \<open>An update in place of the value stored under \<open>k\<close> (\<^verbatim>\<open>d[k].append(x)\<close>,
      \<^verbatim>\<open>d[k] += 1\<close>). The program only does this to a key it has just made sure of.\<close>
  "dict_apply k f [] = []"
| "dict_apply k f (p # d) = (if fst p = k then (k, f (snd p)) # d else p # dict_apply k f d)"

definition dict_get :: "('k \<times> nat) list \<Rightarrow> 'k \<Rightarrow> nat \<Rightarrow> nat" where
  \<comment> \<open>\<^verbatim>\<open>d.get(k, default)\<close>\<close>
  "dict_get d k dflt = (case map_of d k of None \<Rightarrow> dflt | Some n \<Rightarrow> n)"

subsection \<open>The loop over the lines of the match file\<close>

record tally =
  matches :: "(string \<times> string list) list"
  rule_counts :: "(string \<times> nat) list"

definition record_line :: "tally \<Rightarrow> string \<Rightarrow> tally" where
  \<comment> \<open>The body of \<^verbatim>\<open>for line in f\<close> (lines 283--295).\<close>
  "record_line t line =
     (if py_strip line \<noteq> [] then
        (let parts = split_once (py_strip line) in
         if length parts \<ge> 2 then
           (let rule_name = parts ! 0;
                match_info = parts ! 1;
                t1 = (if map_of (matches t) rule_name = None
                      then t\<lparr>matches := dict_set rule_name [] (matches t),
                             rule_counts := dict_set rule_name 0 (rule_counts t)\<rparr>
                      else t)
            in t1\<lparr>matches := dict_apply rule_name (\<lambda>ms. ms @ [match_info]) (matches t1),
                   rule_counts := dict_apply rule_name (\<lambda>n. n + 1) (rule_counts t1)\<rparr>)
         else t)
      else t)"

definition read_matches :: "string list \<Rightarrow> tally" where
  "read_matches file_lines = foldl record_line \<lparr>matches = [], rule_counts = []\<rparr> file_lines"

subsection \<open>The JSON document\<close>

record findings_flags =
  credentials_found :: bool
  system_config_found :: bool
  process_maps_found :: bool
  network_info_found :: bool
  ssh_keys_found :: bool
  potential_malware :: bool

record yara_results =
  analysis_timestamp :: string
  dump_file :: string
  analysis_directory :: string
  yara_rules_file :: string
  total_matches :: nat
  rule_summary :: "(string \<times> nat) list"
  detailed_matches :: "(string \<times> string list) list"
  key_findings :: findings_flags

definition yara_json :: "string \<Rightarrow> string \<Rightarrow> string \<Rightarrow> string \<Rightarrow> string list \<Rightarrow> yara_results" where
  \<comment> \<open>Lines 297--314. \<open>now\<close> is what \<^verbatim>\<open>datetime.now().isoformat()\<close> returns; the three
      paths are the shell variables the script pastes into the Python text;
      \<open>file_lines\<close> are the lines of \<^verbatim>\<open>$OUTPUT_FILE\<close>.\<close>
  "yara_json now DUMP_FILE ANALYSIS_DIR YARA_RULES file_lines =
     (let t = read_matches file_lines; rc = rule_counts t in
      \<lparr>analysis_timestamp = now,
       dump_file = DUMP_FILE,
       analysis_directory = ANALYSIS_DIR,
       yara_rules_file = YARA_RULES,
       total_matches = sum_list (map snd rc),
       rule_summary = rc,
       detailed_matches = matches t,
       key_findings =
         \<lparr>credentials_found = dict_get rc ''CirrOS_Credentials'' 0 > 0,
          system_config_found = dict_get rc ''System_Configuration'' 0 > 0,
          process_maps_found = dict_get rc ''Process_Memory_Maps'' 0 > 0,
          network_info_found = dict_get rc ''Network_Information'' 0 > 0,
          ssh_keys_found = dict_get rc ''SSH_Keys_And_Auth'' 0 > 0,
          potential_malware = dict_get rc ''Potential_Malware'' 0 > 0\<rparr>\<rparr>)"

text \<open>
  What one line contributes: its rule name and match text, or nothing. This is a
  reading aid for the theorems; the program itself is \<^const>\<open>record_line\<close>.
\<close>

definition parse_line :: "string \<Rightarrow> (string \<times> string) option" where
  "parse_line line =
     (let s = py_strip line in
      if s \<noteq> [] \<and> CHR '' '' \<in> set s
      then Some (takeWhile (\<lambda>c. c \<noteq> CHR '' '') s, tl (dropWhile (\<lambda>c. c \<noteq> CHR '' '') s))
      else None)"

definition group_of :: "string \<Rightarrow> (string \<times> string) list \<Rightarrow> string list" where
  "group_of r ps = map snd (filter (\<lambda>p. fst p = r) ps)"

definition add_match :: "tally \<Rightarrow> string \<times> string \<Rightarrow> tally" where
  \<comment> \<open>What \<^const>\<open>record_line\<close> does with a line that parses to \<open>p\<close>.\<close>
  "add_match t p =
     (let t1 = (if map_of (matches t) (fst p) = None
                then t\<lparr>matches := dict_set (fst p) [] (matches t),
                       rule_counts := dict_set (fst p) 0 (rule_counts t)\<rparr>
                else t)
      in t1\<lparr>matches := dict_apply (fst p) (\<lambda>ms. ms @ [snd p]) (matches t1),
             rule_counts := dict_apply (fst p) (\<lambda>n. n + 1) (rule_counts t1)\<rparr>)"

definition tallies :: "tally \<Rightarrow> (string \<times> string) list \<Rightarrow> bool" where
  \<comment> \<open>The loop invariant: the two dicts hold exactly the parsed lines read so far.\<close>
  "tallies t ps \<longleftrightarrow>
     rule_counts t = map (\<lambda>e. (fst e, length (snd e))) (matches t) \<and>
     (\<forall>r. map_of (matches t) r = (if group_of r ps = [] then None else Some (group_of r ps))) \<and>
     sum_list (map snd (rule_counts t)) = length ps"

section \<open>The two pipeline scripts as shell programs\<close>

text \<open>
  \<^verbatim>\<open>multi-tool-forensic.sh\<close> and \<^verbatim>\<open>advanced-yara-tool.sh\<close> are straight-line shell
  scripts: an argument check, then one block per tool. Every tool is started as a
  foreground command, so the shell waits until the command ends, and no block looks at
  an exit status. A run is modelled by what it leaves behind: the exit status, the
  console lines that matter here (the usage text and the two JSON markers; the
  banners and the tools' own listings are left out), the directories made with
  \<^verbatim>\<open>mkdir -p\<close>, the analysis commands waited for (the shell utilities \<^verbatim>\<open>ls\<close>,
  \<^verbatim>\<open>date\<close>, \<^verbatim>\<open>grep\<close>, \<^verbatim>\<open>head\<close>, \<^verbatim>\<open>find\<close>, \<^verbatim>\<open>wc\<close>, \<^verbatim>\<open>cat\<close> count as
  immediate), and the JSON document printed between the markers. A command that never
  ends leaves the script without a result: \<open>None\<close>.
\<close>

datatype ending = Ends nat nat | Hangs
  \<comment> \<open>an external command ends after so many seconds with an exit status, or never\<close>

record world =
  script_name :: string
  arg1 :: string
  regular_file :: "string \<Rightarrow> bool"
  command_v :: "string \<Rightarrow> bool"
  behaviour :: "string \<Rightarrow> ending"
  stamp :: string
  now_iso :: string
  getsize :: nat
  yara_output :: "string list"

text \<open>
  \<open>script_name\<close> is \<^verbatim>\<open>$0\<close>, \<open>arg1\<close> is \<^verbatim>\<open>"$1"\<close> (empty when there is no argument),
  \<open>regular_file p\<close> is \<^verbatim>\<open>[ -f p ]\<close>, \<open>command_v c\<close> is \<^verbatim>\<open>command -v c\<close>,
  \<open>behaviour c\<close> says how the external command \<open>c\<close> ends, \<open>stamp\<close> is
  \<^verbatim>\<open>date +%Y%m%d_%H%M%S\<close>, \<open>now_iso\<close> is \<^verbatim>\<open>datetime.now().isoformat()\<close>, \<open>getsize\<close> is
  \<^verbatim>\<open>os.path.getsize\<close> of the dump and \<open>yara_output\<close> holds the lines that line 197 of
  \<^verbatim>\<open>advanced-yara-tool.sh\<close> redirects into \<^verbatim>\<open>$OUTPUT_FILE\<close>.
\<close>

record 'j run =
  exit_status :: nat
  console :: "string list"
  directories :: "string list"
  waited :: "(string \<times> nat \<times> nat) list"
  json :: "'j option"

fun foreground :: "(string \<Rightarrow> ending) \<Rightarrow> string list \<Rightarrow> (string \<times> nat \<times> nat) list option" where
  \<comment> \<open>\<^verbatim>\<open>c1; c2; ...\<close>: each command is waited for until it ends, whatever its status.\<close>
  "foreground b [] = Some []"
| "foreground b (c # cs) =
     (case b c of
        Hangs \<Rightarrow> None
      | Ends secs st \<Rightarrow>
          (case foreground b cs of None \<Rightarrow> None | Some ws \<Rightarrow> Some ((c, secs, st) # ws)))"

definition and_then :: "(string \<Rightarrow> ending) \<Rightarrow> string \<Rightarrow> string \<Rightarrow> string list" where
  \<comment> \<open>\<^verbatim>\<open>c1 && c2\<close>: the second command runs only after a first one that ended with 0.\<close>
  "and_then b c1 c2 = (case b c1 of Ends secs st \<Rightarrow> if st = 0 then [c1, c2] else [c1] | Hangs \<Rightarrow> [c1])"

definition usage :: "world \<Rightarrow> string \<Rightarrow> 'j run" where
  \<comment> \<open>Lines 9--13 of both scripts; \<open>example\<close> is the path of the second line.\<close>
  "usage w example =
     \<lparr>exit_status = 1,
      console = [''Usage: '' @ script_name w @ '' <memory_dump_file>'',
                 ''Example: '' @ script_name w @ '' '' @ example],
      directories = [],
      waited = [],
      json = None\<rparr>"

definition json_markers :: "string list" where
  "json_markers = [''=== JSON_OUTPUT_START ==='', ''=== JSON_OUTPUT_END ==='']"

subsection \<open>multi-tool-forensic.sh\<close>

record summary =
  summary_analysis_directory :: string
  total_tools_used :: nat
  analysis_complete :: bool
  file_carving_attempted :: bool
  pattern_matching_completed :: bool
  string_extraction_completed :: bool
  custom_analysis_completed :: bool

record multi_tool_results =
  mt_analysis_timestamp :: string
  mt_dump_file :: string
  dump_size :: nat
  tools_used :: "string list"
  results_summary :: "summary option"

text \<open>
  \<^verbatim>\<open>multi_tool_results.json\<close>: the seven per-tool objects under \<^verbatim>\<open>results\<close> stay \<^verbatim>\<open>{}\<close>
  in every run and are not modelled; \<open>results_summary = None\<close> is the \<^verbatim>\<open>{}\<close> of the
  template of lines 29--46.
\<close>

definition template :: multi_tool_results where
  "template =
     \<lparr>mt_analysis_timestamp = [], mt_dump_file = [], dump_size = 0, tools_used = [],
      results_summary = None\<rparr>"

definition update_report :: "world \<Rightarrow> string \<Rightarrow> multi_tool_results \<Rightarrow> multi_tool_results" where
  \<comment> \<open>The Python program of lines 342--375.\<close>
  "update_report w ANALYSIS_DIR results =
     (let results1 = results
            \<lparr>mt_analysis_timestamp := now_iso w,
             mt_dump_file := arg1 w,
             dump_size := getsize w,
             tools_used := [''binwalk'', ''foremost'', ''bulk_extractor'', ''yara'', ''strings'',
                            ''hexdump'', ''custom_analysis'']\<rparr>
      in results1
           \<lparr>results_summary :=
              Some \<lparr>summary_analysis_directory = ANALYSIS_DIR,
                    total_tools_used = length (tools_used results1),
                    analysis_complete = True,
                    file_carving_attempted = True,
                    pattern_matching_completed = True,
                    string_extraction_completed = True,
                    custom_analysis_completed = True\<rparr>\<rparr>)"

definition ended_well :: "ending \<Rightarrow> bool" where
  "ended_well e = (case e of Ends secs st \<Rightarrow> st = 0 | Hangs \<Rightarrow> False)"

definition multi_tool_commands :: "world \<Rightarrow> string list" where
  \<comment> \<open>The analysis commands in the order of the script: the four guarded blocks (a tool
      that \<^verbatim>\<open>command -v\<close> does not find is installed, not run), then \<^verbatim>\<open>strings\<close>, four
      times \<^verbatim>\<open>hexdump\<close>, and \<^verbatim>\<open>python3\<close> for the custom analysis and for the report.\<close>
  "multi_tool_commands w =
     (if command_v w ''binwalk'' then [''binwalk'']
      else and_then (behaviour w) ''apt-get'' ''apt-get'') @
     (if command_v w ''foremost'' then [''foremost''] else [''apt-get'']) @
     (if command_v w ''bulk_extractor'' then [''bulk_extractor''] else [''apt-get'']) @
     (if command_v w ''yara'' then [''yara''] else [''apt-get'']) @
     [''strings'', ''hexdump'', ''hexdump'', ''hexdump'', ''hexdump'', ''python3'', ''python3'']"

definition multi_tool_forensic :: "world \<Rightarrow> multi_tool_results run option" where
  \<comment> \<open>The whole script. The report program of lines 342--375 rewrites the JSON file as
      its last step, so the file is the updated one when \<^verbatim>\<open>python3\<close> ends with status 0
      and the template otherwise; the last command is an \<^verbatim>\<open>echo\<close>, so the status is 0.\<close>
  "multi_tool_forensic w =
     (let DUMP_FILE = arg1 w in
      if DUMP_FILE = [] \<or> \<not> regular_file w DUMP_FILE then
        Some (usage w ''./api_dumps/instance.dump'')
      else
        (let ANALYSIS_DIR = ''./multi_tool_analysis_'' @ stamp w in
         case foreground (behaviour w) (multi_tool_commands w) of
           None \<Rightarrow> None
         | Some ws \<Rightarrow>
             Some \<lparr>exit_status = 0,
                   console = json_markers,
                   directories =
                     [ANALYSIS_DIR] @
                     (if command_v w ''foremost'' then [ANALYSIS_DIR @ ''/foremost_carved''] else []) @
                     (if command_v w ''bulk_extractor''
                      then [ANALYSIS_DIR @ ''/bulk_extractor_output''] else []),
                   waited = ws,
                   json = Some (if ended_well (behaviour w ''python3'')
                                then update_report w ANALYSIS_DIR template
                                else template)\<rparr>))"

subsection \<open>advanced-yara-tool.sh\<close>

definition advanced_yara_tool :: "world \<Rightarrow> yara_results run option" where
  \<comment> \<open>\<^verbatim>\<open>yara\<close> is started without a \<^verbatim>\<open>command -v\<close> guard (line 197); the Python program
      writes the JSON file through a redirect, so a failed \<^verbatim>\<open>python3\<close> leaves it empty.\<close>
  "advanced_yara_tool w =
     (let DUMP_FILE = arg1 w in
      if DUMP_FILE = [] \<or> \<not> regular_file w DUMP_FILE then
        Some (usage w ''./simple_dumps/test_cirros2.raw'')
      else
        (let ANALYSIS_DIR = ''./advanced_yara_analysis_'' @ stamp w;
             YARA_RULES = ANALYSIS_DIR @ ''/advanced_forensic.yar'' in
         case foreground (behaviour w) [''yara'', ''python3''] of
           None \<Rightarrow> None
         | Some ws \<Rightarrow>
             Some \<lparr>exit_status = 0,
                   console = json_markers,
                   directories = [ANALYSIS_DIR],
                   waited = ws,
                   json = (if ended_well (behaviour w ''python3'')
                           then Some (yara_json (now_iso w) DUMP_FILE ANALYSIS_DIR YARA_RULES
                                        (yara_output w))
                           else None)\<rparr>))"

definition kept_within :: "nat \<Rightarrow> 'j run \<Rightarrow> bool" where
  \<comment> \<open>No command was waited for longer than \<open>limit\<close> seconds.\<close>
  "kept_within limit r = list_all (\<lambda>e. fst (snd e) \<le> limit) (waited r)"

definition elapsed :: "'j run \<Rightarrow> nat" where
  "elapsed r = sum_list (map (\<lambda>e. fst (snd e)) (waited r))"

section \<open>The job state machine and the orchestrator\<close>

text \<open>
  The service that owns the jobs (\<^verbatim>\<open>integrated_forensic.py\<close>, with its endpoints in
  \<^verbatim>\<open>forensic.py\<close>) is not among the sources; the page \<^verbatim>\<open>ForensicsClean.tsx\<close> only reads
  what that service returns. The definitions of this section follow sections 3, 4.3
  and 4.4 of the specification instead.
\<close>

text \<open>
  Modelled from the spec: the states of a job (section 4.3), the error taxonomy
  (section 7), the outcomes and failure policies of the Phase Runner (sections 3 and
  4.2) and the records \<open>PhaseResult\<close>, \<open>ResultDocument\<close> and \<open>Job\<close> of section 3. In
  the result document \<open>findings\<close> and \<open>toolSummary\<close> are functions of the phase results
  (section 4.5) and are kept as \<open>phaseResults\<close>; \<open>shortfall\<close> is the warning annotation
  and \<open>reportError\<close> the flag of section 4.3. A job also carries what its state machine
  has gathered so far: \<open>acquired\<close>, \<open>collected\<close> and \<open>warnings\<close>. The configuration names
  the failure policy of each analysis phase in order, the two configurable policies of
  section 4.3, the pool size \<open>N\<close> and the cap of the job table.
\<close>

datatype phase = Pending | Acquiring | Analyzing | Reporting | Completed | Failed | Cancelled

datatype error_kind =
  AcquisitionFailed | ToolTimeout | ToolOutputUnparsable | PhaseFailurePolicyViolated |
  ReportRenderFailed | CapacityExceeded | NotFound | NotReady | JobCancelled

datatype outcome = Success | PartialSuccess | Failure

datatype policy = AllMustSucceed | MajoritySucceed | BestEffort

record tool_outcome =
  toolName :: string
  outcome :: outcome
  structuredOutput :: "string list"
  rawLog :: string
  durationMs :: nat

record phase_result =
  phaseTag :: string
  toolOutcomes :: "tool_outcome list"

record result_document =
  doc_subjectRef :: string
  acquisitionInfo :: string
  phaseResults :: "phase_result list"
  shortfall :: "string list"
  reportError :: bool
  generatedAt :: nat

record job =
  jobId :: nat
  subjectRef :: string
  phase :: phase
  progressPercent :: nat
  currentStepLabel :: string
  createdAt :: nat
  startedAt :: "nat option"
  completedAt :: "nat option"
  errorDetail :: "error_kind option"
  result :: "result_document option"
  acquired :: string
  collected :: "phase_result list"
  warnings :: "string list"

record config =
  analysis_phases :: "policy list"
  report_mandatory :: bool
  keep_partial_result :: bool
  pool_size :: nat
  table_cap :: nat

text \<open>
  Modelled from the spec: what can happen to a job (section 4.3): a slot is granted,
  the acquisition ends, the Phase Runner hands back a phase with its outcome, the
  renderer ends, or a cancellation is requested.
\<close>

datatype job_event =
  Dequeued | Acquired string | AcquisitionError | PhaseDone outcome phase_result |
  Rendered | RenderError | CancelRequest

definition terminal :: "phase \<Rightarrow> bool" where
  \<comment> \<open>Modelled from the spec: the three terminal states of section 4.3.\<close>
  "terminal p = (p = Completed \<or> p = Failed \<or> p = Cancelled)"

definition occupies_slot :: "phase \<Rightarrow> bool" where
  \<comment> \<open>Modelled from the spec: a job holds a slot from \<open>Acquiring\<close> to \<open>Reporting\<close>
      (section 4.4).\<close>
  "occupies_slot p = (p = Acquiring \<or> p = Analyzing \<or> p = Reporting)"

definition new_job :: "nat \<Rightarrow> string \<Rightarrow> nat \<Rightarrow> job" where
  \<comment> \<open>Modelled from the spec: \<^verbatim>\<open>Submit\<close> of section 4.4 creates the job in \<open>Pending\<close>.\<close>
  "new_job i subject now =
     \<lparr>jobId = i, subjectRef = subject, phase = Pending, progressPercent = 0,
      currentStepLabel = ''Pending'', createdAt = now, startedAt = None, completedAt = None,
      errorDetail = None, result = None, acquired = [], collected = [], warnings = []\<rparr>"

definition progress_after :: "config \<Rightarrow> nat \<Rightarrow> nat" where
  \<comment> \<open>Modelled from the spec: section 4.3, the range 25 to 75 split evenly across the
      analysis phases; \<open>k\<close> phases are completed.\<close>
  "progress_after cfg k = 25 + (50 * k) div length (analysis_phases cfg)"

definition aggregate :: "job \<Rightarrow> nat \<Rightarrow> bool \<Rightarrow> result_document" where
  \<comment> \<open>Modelled from the spec: the Result Aggregator of section 4.5 as the job state
      machine calls it; the grouping of the findings inside the document is left out.\<close>
  "aggregate j now report_failed =
     \<lparr>doc_subjectRef = subjectRef j, acquisitionInfo = acquired j,
      phaseResults = collected j, shortfall = warnings j, reportError = report_failed,
      generatedAt = now\<rparr>"

definition fail_job :: "config \<Rightarrow> nat \<Rightarrow> error_kind \<Rightarrow> job \<Rightarrow> job" where
  \<comment> \<open>Modelled from the spec: \<open>Failed\<close> of section 4.3: error detail set, no result, or
      the partial result when the configuration keeps it.\<close>
  "fail_job cfg now e j =
     j\<lparr>phase := Failed, currentStepLabel := ''Failed'', errorDetail := Some e,
       completedAt := Some now,
       result := (if keep_partial_result cfg then Some (aggregate j now False) else None)\<rparr>"

definition complete_job :: "nat \<Rightarrow> bool \<Rightarrow> job \<Rightarrow> job" where
  \<comment> \<open>Modelled from the spec: \<open>Completed\<close> of section 4.3.\<close>
  "complete_job now report_failed j =
     j\<lparr>phase := Completed, currentStepLabel := ''Completed'', progressPercent := 100,
       completedAt := Some now, result := Some (aggregate j now report_failed)\<rparr>"

definition phase_done :: "config \<Rightarrow> nat \<Rightarrow> outcome \<Rightarrow> phase_result \<Rightarrow> job \<Rightarrow> job" where
  \<comment> \<open>Modelled from the spec: \<open>Analyzing\<close> of section 4.3. The Phase Runner has reduced
      the tools' outcomes to the phase's own outcome under the phase's failure policy. A
      failed phase fails the job, except under \<open>BestEffort\<close>, where the job goes on with
      what it has and the shortfall is kept as a warning for the eventual result (the
      job's own error detail stays reserved for \<open>Failed\<close>, as section 3 has it).\<close>
  "phase_done cfg now out pr j =
     (let k = length (collected j) in
      if k < length (analysis_phases cfg) then
        (let pol = analysis_phases cfg ! k in
         if out = Failure \<and> pol \<noteq> BestEffort then fail_job cfg now PhaseFailurePolicyViolated j
         else
           j\<lparr>collected := collected j @ [pr],
             warnings := (if out = Success then warnings j else warnings j @ [phaseTag pr]),
             progressPercent := progress_after cfg (Suc k),
             phase := (if Suc k = length (analysis_phases cfg) then Reporting else Analyzing),
             currentStepLabel := (if Suc k = length (analysis_phases cfg)
                                  then ''Generating report'' else ''Analyzing'')\<rparr>)
      else j)"

definition job_step :: "config \<Rightarrow> nat \<Rightarrow> job_event \<Rightarrow> job \<Rightarrow> job" where
  \<comment> \<open>Modelled from the spec: the transitions of section 4.3. An event that does not fit
      the current state changes nothing; a terminal state is never left.\<close>
  "job_step cfg now ev j =
     (if terminal (phase j) then j
      else case ev of
        CancelRequest \<Rightarrow>
          j\<lparr>phase := Cancelled, currentStepLabel := ''Cancelled'', completedAt := Some now,
            result := None\<rparr>
      | Dequeued \<Rightarrow>
          if phase j = Pending
          then j\<lparr>phase := Acquiring, currentStepLabel := ''Acquiring memory image'',
                 startedAt := Some now\<rparr>
          else j
      | Acquired info \<Rightarrow>
          if phase j = Acquiring
          then j\<lparr>phase := Analyzing, currentStepLabel := ''Analyzing'', progressPercent := 25,
                 acquired := info\<rparr>
          else j
      | AcquisitionError \<Rightarrow>
          if phase j = Acquiring then fail_job cfg now AcquisitionFailed j else j
      | PhaseDone out pr \<Rightarrow>
          if phase j = Analyzing then phase_done cfg now out pr j else j
      | Rendered \<Rightarrow>
          if phase j = Reporting then complete_job now False j else j
      | RenderError \<Rightarrow>
          if phase j = Reporting
          then (if report_mandatory cfg then fail_job cfg now ReportRenderFailed j
                else complete_job now True j)
          else j)"

fun job_trace :: "config \<Rightarrow> job \<Rightarrow> (nat \<times> job_event) list \<Rightarrow> job list" where
  \<comment> \<open>Modelled from the spec: the states a caller can observe while the timed events
      arrive one by one.\<close>
  "job_trace cfg j [] = [j]"
| "job_trace cfg j (e # es) = j # job_trace cfg (job_step cfg (fst e) (snd e) j) es"

definition job_inv :: "config \<Rightarrow> job \<Rightarrow> bool" where
  \<comment> \<open>Modelled from the spec: what every state of a job satisfies; used in the proofs
      only.\<close>
  "job_inv cfg j \<longleftrightarrow>
     ((phase j = Pending \<or> phase j = Acquiring) \<longrightarrow>
        progressPercent j = 0 \<and> collected j = []) \<and>
     (phase j = Analyzing \<longrightarrow>
        progressPercent j = progress_after cfg (length (collected j)) \<and>
        length (collected j) \<le> length (analysis_phases cfg)) \<and>
     (phase j = Reporting \<longrightarrow> progressPercent j \<le> 75) \<and>
     (phase j = Completed \<longrightarrow> progressPercent j = 100 \<and> result j \<noteq> None) \<and>
     progressPercent j \<le> 100 \<and>
     (errorDetail j \<noteq> None \<longleftrightarrow> phase j = Failed) \<and>
     (phase j = Pending \<longrightarrow> startedAt j = None)"

subsection \<open>The orchestrator\<close>

text \<open>
  Modelled from the spec: the job table, with a clock that stamps the events, and the
  requests the orchestrator handles (section 4.4): a submission, a free worker asking
  for the next job, an event of a running job, and a cancellation.
\<close>

record orchestrator =
  table :: "job list"
  clock :: nat

datatype request = Submit string | Dispatch | Report nat job_event | Cancel nat

definition submit :: "config \<Rightarrow> string \<Rightarrow> orchestrator \<Rightarrow> (error_kind + nat) \<times> orchestrator" where
  \<comment> \<open>Modelled from the spec: \<^verbatim>\<open>Submit\<close> of section 4.4. The table keeps the jobs in
      the order of submission; a job's id is its position.\<close>
  "submit cfg subject s =
     (if length (table s) \<ge> table_cap cfg then (Inl CapacityExceeded, s)
      else (Inr (length (table s)),
            s\<lparr>table := table s @ [new_job (length (table s)) subject (clock s)]\<rparr>))"

fun admit_first :: "config \<Rightarrow> nat \<Rightarrow> job list \<Rightarrow> job list" where
  \<comment> \<open>Modelled from the spec: the pool takes the \<open>Pending\<close> job submitted first.\<close>
  "admit_first cfg now [] = []"
| "admit_first cfg now (j # js) =
     (if phase j = Pending then job_step cfg now Dequeued j # js
      else j # admit_first cfg now js)"

definition slots_in_use :: "job list \<Rightarrow> nat" where
  \<comment> \<open>Modelled from the spec: the number of jobs that hold a slot.\<close>
  "slots_in_use js = length (filter (\<lambda>j. occupies_slot (phase j)) js)"

definition dispatch :: "config \<Rightarrow> orchestrator \<Rightarrow> orchestrator" where
  \<comment> \<open>Modelled from the spec: the worker pool of size \<open>N\<close> of section 4.4.\<close>
  "dispatch cfg s =
     (if slots_in_use (table s) < pool_size cfg
      then s\<lparr>table := admit_first cfg (clock s) (table s)\<rparr>
      else s)"

definition report :: "config \<Rightarrow> nat \<Rightarrow> job_event \<Rightarrow> orchestrator \<Rightarrow> orchestrator" where
  \<comment> \<open>Modelled from the spec: an event of a running job reaches that job's state machine.
      Only the pool admits jobs, so \<open>Dequeued\<close> is not accepted from outside.\<close>
  "report cfg i ev s =
     (case ev of
        Dequeued \<Rightarrow> s
      | _ \<Rightarrow> s\<lparr>table := map (\<lambda>j. if jobId j = i then job_step cfg (clock s) ev j else j)
                            (table s)\<rparr>)"

definition orch_step :: "config \<Rightarrow> orchestrator \<Rightarrow> request \<Rightarrow> orchestrator" where
  \<comment> \<open>Modelled from the spec: all changes of the job table are serialised (section 5),
      so an execution is a sequence of requests handled one at a time.\<close>
  "orch_step cfg s rq =
     (let s1 = (case rq of
                  Submit subject \<Rightarrow> snd (submit cfg subject s)
                | Dispatch \<Rightarrow> dispatch cfg s
                | Report i ev \<Rightarrow> report cfg i ev s
                | Cancel i \<Rightarrow> report cfg i CancelRequest s)
      in s1\<lparr>clock := Suc (clock s1)\<rparr>)"

definition orch_run :: "config \<Rightarrow> request list \<Rightarrow> orchestrator" where
  \<comment> \<open>Modelled from the spec: the orchestrator starts with an empty table.\<close>
  "orch_run cfg rqs = foldl (orch_step cfg) \<lparr>table = [], clock = 0\<rparr> rqs"

definition get_status :: "orchestrator \<Rightarrow> nat \<Rightarrow> error_kind + job" where
  \<comment> \<open>Modelled from the spec: \<^verbatim>\<open>GetStatus\<close> of section 4.4.\<close>
  "get_status s i =
     (case find (\<lambda>j. jobId j = i) (table s) of None \<Rightarrow> Inl NotFound | Some j \<Rightarrow> Inr j)"

definition get_result :: "orchestrator \<Rightarrow> nat \<Rightarrow> error_kind + result_document" where
  \<comment> \<open>Modelled from the spec: \<^verbatim>\<open>GetResult\<close> of section 4.4.\<close>
  "get_result s i =
     (case find (\<lambda>j. jobId j = i) (table s) of
        None \<Rightarrow> Inl NotFound
      | Some j \<Rightarrow>
          if phase j = Completed
          then (case result j of None \<Rightarrow> Inl NotReady | Some r \<Rightarrow> Inr r)
          else Inl NotReady)"

fun fifo :: "job list \<Rightarrow> bool" where
  \<comment> \<open>Modelled from the spec: FIFO admission. No job has been started while a job
      submitted before it is still \<open>Pending\<close>.\<close>
  "fifo [] = True"
| "fifo (j # js) = ((phase j \<noteq> Pending \<or> list_all (\<lambda>k. startedAt k = None) js) \<and> fifo js)"

section \<open>Concrete inputs and measures of a run\<close>

text \<open>The runs at which the theorems below are evaluated, and what is read off a run.\<close>

definition lab_world :: world where
  "lab_world =
     \<lparr>script_name = ''./multi-tool-forensic.sh'',
      arg1 = ''./api_dumps/instance.dump'',
      regular_file = (\<lambda>p. p = ''./api_dumps/instance.dump''),
      command_v = (\<lambda>c. c = ''binwalk'' \<or> c = ''foremost'' \<or> c = ''yara''),
      behaviour = (\<lambda>c. if c = ''binwalk'' then Ends 86400 0
                        else if c = ''foremost'' then Ends 20 1 else Ends 1 0),
      stamp = ''20250101_120000'',
      now_iso = ''2025-01-01T12:00:00'',
      getsize = 4096,
      yara_output = [''CirrOS_Credentials ./api_dumps/instance.dump'',
                     ''0x1f40:$gocubsgo: gocubsgo'',
                     ''Command_History ./api_dumps/instance.dump'']\<rparr>"

definition bare_world :: world where
  \<comment> \<open>None of the four guarded tools is installed; \<^verbatim>\<open>strings\<close> fails.\<close>
  "bare_world =
     lab_world\<lparr>command_v := (\<lambda>c. False),
               behaviour := (\<lambda>c. if c = ''strings'' then Ends 2 1 else Ends 1 0)\<rparr>"

definition tools_run :: "'j run \<Rightarrow> string list" where
  \<comment> \<open>The analysis tools a run has started, installations apart.\<close>
  "tools_run r = remdups (filter (\<lambda>c. c \<noteq> ''apt-get'') (map fst (waited r)))"

definition tools_failed :: "'j run \<Rightarrow> string list" where
  \<comment> \<open>The commands of a run that ended with a status other than 0.\<close>
  "tools_failed r = remdups (map fst (filter (\<lambda>e. snd (snd e) \<noteq> 0) (waited r)))"

definition sample_lines :: "string list" where
  "sample_lines =
     [''CirrOS_Credentials ./dump.raw'',
      ''0x1f40:$gocubsgo: gocubsgo'',
      [],
      ''Command_History ./dump.raw'',
      ''CirrOS_Credentials  ./other.raw  '',
      ''error'']"

definition demo_config :: config where
  "demo_config =
     \<lparr>analysis_phases = [BestEffort, AllMustSucceed], report_mandatory = False,
      keep_partial_result = False, pool_size = 2, table_cap = 10\<rparr>"

definition demo_phase :: "string \<Rightarrow> outcome \<Rightarrow> phase_result" where
  "demo_phase tag out =
     \<lparr>phaseTag = tag,
      toolOutcomes = [\<lparr>toolName = ''yara'', outcome = out, structuredOutput = [],
                       rawLog = [], durationMs = 1200\<rparr>]\<rparr>"

definition demo_events :: "(nat \<times> job_event) list" where
  "demo_events =
     [(1, Dequeued), (2, Acquired ''/tmp/image.raw''),
      (3, PhaseDone Failure (demo_phase ''multi-tool'' Failure)),
      (4, PhaseDone Success (demo_phase ''patterns'' Success)),
      (5, RenderError)]"

definition demo_requests :: "request list" where
  "demo_requests =
     [Submit ''vm-a'', Submit ''vm-b'', Submit ''vm-c'', Dispatch, Dispatch, Dispatch,
      Report 0 (Acquired ''/tmp/a.raw''),
      Report 0 (PhaseDone Success (demo_phase ''multi-tool'' Success)),
      Report 0 (PhaseDone Success (demo_phase ''patterns'' Success)),
      Report 0 Rendered, Dispatch]"

section \<open>Results about the YARA results document\<close>

subsection \<open>Dicts\<close>


lemma map_of_dict_set: "map_of (dict_set k v d) = (map_of d)(k \<mapsto> v)"
  by (induction d) auto

lemma map_of_dict_apply:
  "map_of (dict_apply k f d) =
     (case map_of d k of None \<Rightarrow> map_of d | Some v \<Rightarrow> (map_of d)(k \<mapsto> f v))"
  by (induction d) (auto split: option.splits)

lemma counts_dict_set:
  "map (\<lambda>e. (fst e, length (snd e))) (dict_set k [] d) =
   dict_set k 0 (map (\<lambda>e. (fst e, length (snd e))) d)"
  by (induction d) auto

lemma counts_dict_apply:
  "map (\<lambda>e. (fst e, length (snd e))) (dict_apply k (\<lambda>ms. ms @ [m]) d) =
   dict_apply k (\<lambda>n. n + 1) (map (\<lambda>e. (fst e, length (snd e))) d)"
  by (induction d) auto

lemma sum_dict_set_new:
  "map_of d k = None \<Longrightarrow> sum_list (map snd (dict_set k (0::nat) d)) = sum_list (map snd d)"
  by (induction d) (auto split: if_splits)

lemma sum_dict_apply_Suc:
  "map_of d k \<noteq> None \<Longrightarrow>
   sum_list (map snd (dict_apply k (\<lambda>n. n + 1) d)) = Suc (sum_list (map snd d))"
  by (induction d) (auto split: if_splits)

lemma map_of_counts:
  "map_of (map (\<lambda>e. (fst e, length (snd e))) d) k = map_option length (map_of d k)"
  by (induction d) auto

lemma record_line_skip: "parse_line line = None \<Longrightarrow> record_line t line = t"
  by (auto simp: parse_line_def record_line_def split_once_def Let_def split: if_splits)

lemma record_line_keep: "parse_line line = Some p \<Longrightarrow> record_line t line = add_match t p"
  by (auto simp: parse_line_def record_line_def split_once_def Let_def add_match_def split: if_splits)

lemma tallies_empty: "tallies \<lparr>matches = [], rule_counts = []\<rparr> []"
  by (simp add: tallies_def group_of_def)

lemma group_of_snoc:
  "group_of r (ps @ [p]) = (if fst p = r then group_of r ps @ [snd p] else group_of r ps)"
  by (simp add: group_of_def)

lemma tallies_add:
  assumes "tallies t ps"
  shows "tallies (add_match t p) (ps @ [p])"
proof -
  let ?c = "\<lambda>e::string \<times> string list. (fst e, length (snd e))"
  from assms have rc: "rule_counts t = map ?c (matches t)"
    and grp: "\<And>r. map_of (matches t) r = (if group_of r ps = [] then None else Some (group_of r ps))"
    and tot: "sum_list (map snd (rule_counts t)) = length ps"
    unfolding tallies_def by blast+
  show ?thesis
  proof (cases "map_of (matches t) (fst p) = None")
    case True
    then have rcn: "map_of (rule_counts t) (fst p) = None"
      by (simp add: rc map_of_counts)
    have "sum_list (map snd (dict_apply (fst p) (\<lambda>n. n + 1) (dict_set (fst p) 0 (rule_counts t))))
        = Suc (sum_list (map snd (dict_set (fst p) 0 (rule_counts t))))"
      by (rule sum_dict_apply_Suc) (simp add: map_of_dict_set)
    then have s: "sum_list (map snd (dict_apply (fst p) (\<lambda>n. n + 1) (dict_set (fst p) 0 (rule_counts t))))
        = Suc (length ps)"
      by (simp add: sum_dict_set_new[OF rcn] tot)
    from True grp[of "fst p"] have g: "group_of (fst p) ps = []"
      by (simp split: if_splits)
    have c: "dict_apply (fst p) (\<lambda>n. n + 1) (dict_set (fst p) 0 (rule_counts t)) =
        map ?c (dict_apply (fst p) (\<lambda>ms. ms @ [snd p]) (dict_set (fst p) [] (matches t)))"
      by (simp only: counts_dict_apply counts_dict_set rc)
    have m: "\<And>r. map_of (dict_apply (fst p) (\<lambda>ms. ms @ [snd p]) (dict_set (fst p) [] (matches t))) r
        = (if group_of r (ps @ [p]) = [] then None else Some (group_of r (ps @ [p])))"
      by (simp add: map_of_dict_apply map_of_dict_set group_of_snoc g grp)
    have am: "add_match t p =
        t\<lparr>matches := dict_apply (fst p) (\<lambda>ms. ms @ [snd p]) (dict_set (fst p) [] (matches t)),
          rule_counts := dict_apply (fst p) (\<lambda>n. n + 1) (dict_set (fst p) 0 (rule_counts t))\<rparr>"
      using True by (simp add: add_match_def)
    have "rule_counts (add_match t p) = map ?c (matches (add_match t p))"
      unfolding am using c by simp
    moreover have "\<forall>r. map_of (matches (add_match t p)) r =
        (if group_of r (ps @ [p]) = [] then None else Some (group_of r (ps @ [p])))"
      unfolding am using m by simp
    moreover have "sum_list (map snd (rule_counts (add_match t p))) = length (ps @ [p])"
      unfolding am using s by simp
    ultimately show ?thesis
      unfolding tallies_def by blast
  next
    case False
    then have rcn: "map_of (rule_counts t) (fst p) \<noteq> None"
      by (simp add: rc map_of_counts)
    have s: "sum_list (map snd (dict_apply (fst p) (\<lambda>n. n + 1) (rule_counts t))) = Suc (length ps)"
      using sum_dict_apply_Suc[OF rcn] tot by simp
    have c: "dict_apply (fst p) (\<lambda>n. n + 1) (rule_counts t) =
        map ?c (dict_apply (fst p) (\<lambda>ms. ms @ [snd p]) (matches t))"
      by (simp only: counts_dict_apply rc)
    from False grp[of "fst p"] have gne: "group_of (fst p) ps \<noteq> []"
      by (simp split: if_splits)
    with grp[of "fst p"] have g: "map_of (matches t) (fst p) = Some (group_of (fst p) ps)"
      by simp
    have m: "\<And>r. map_of (dict_apply (fst p) (\<lambda>ms. ms @ [snd p]) (matches t)) r
        = (if group_of r (ps @ [p]) = [] then None else Some (group_of r (ps @ [p])))"
      using gne by (auto simp: map_of_dict_apply g group_of_snoc grp)
    have am: "add_match t p =
        t\<lparr>matches := dict_apply (fst p) (\<lambda>ms. ms @ [snd p]) (matches t),
          rule_counts := dict_apply (fst p) (\<lambda>n. n + 1) (rule_counts t)\<rparr>"
      using False by (auto simp: add_match_def)
    have "rule_counts (add_match t p) = map ?c (matches (add_match t p))"
      unfolding am using c by simp
    moreover have "\<forall>r. map_of (matches (add_match t p)) r =
        (if group_of r (ps @ [p]) = [] then None else Some (group_of r (ps @ [p])))"
      unfolding am using m by simp
    moreover have "sum_list (map snd (rule_counts (add_match t p))) = length (ps @ [p])"
      unfolding am using s by simp
    ultimately show ?thesis
      unfolding tallies_def by blast
  qed
qed

lemma tallies_foldl:
  "tallies t ps \<Longrightarrow> tallies (foldl record_line t ls) (ps @ List.map_filter parse_line ls)"
proof (induction ls arbitrary: t ps)
  case Nil
  then show ?case by (simp add: List.map_filter_simps)
next
  case (Cons l ls)
  show ?case
  proof (cases "parse_line l")
    case None
    with Cons show ?thesis by (simp add: record_line_skip List.map_filter_simps)
  next
    case (Some p)
    from Cons.prems have "tallies (add_match t p) (ps @ [p])" by (rule tallies_add)
    from Cons.IH[OF this] Some show ?thesis
      by (simp add: record_line_keep List.map_filter_simps)
  qed
qed

lemma tallies_read: "tallies (read_matches ls) (List.map_filter parse_line ls)"
  using tallies_foldl[OF tallies_empty, of ls] by (simp add: read_matches_def)




text \<open>
  Claim C6. The total match count of the JSON document is the sum of the per-rule
  counts of that same document (\<^verbatim>\<open>sum(rule_counts.values())\<close>), it is the number of
  lines of the tool output that parse, every per-rule count is the length of the list
  of matches kept under that rule, and the count of a rule is the number of parsed
  lines that start with its name.
\<close>

theorem yara_total_is_sum_of_rule_counts:
  "total_matches (yara_json now d a y ls) = sum_list (map snd (rule_summary (yara_json now d a y ls))) \<and>
   total_matches (yara_json now d a y ls) = length (List.map_filter parse_line ls) \<and>
   rule_summary (yara_json now d a y ls) =
     map (\<lambda>e. (fst e, length (snd e))) (detailed_matches (yara_json now d a y ls)) \<and>
   map_of (rule_summary (yara_json now d a y ls)) r =
     (if group_of r (List.map_filter parse_line ls) = [] then None
      else Some (length (group_of r (List.map_filter parse_line ls))))"
proof -
  have t: "tallies (read_matches ls) (List.map_filter parse_line ls)"
    by (rule tallies_read)
  then have rc: "rule_counts (read_matches ls) =
      map (\<lambda>e. (fst e, length (snd e))) (matches (read_matches ls))"
    and grp: "map_of (matches (read_matches ls)) r =
      (if group_of r (List.map_filter parse_line ls) = [] then None
       else Some (group_of r (List.map_filter parse_line ls)))"
    and tot: "sum_list (map snd (rule_counts (read_matches ls))) = length (List.map_filter parse_line ls)"
    unfolding tallies_def by blast+
  have cnt: "map_of (rule_counts (read_matches ls)) r =
      (if group_of r (List.map_filter parse_line ls) = [] then None
       else Some (length (group_of r (List.map_filter parse_line ls))))"
    by (simp only: rc map_of_counts grp) simp
  show ?thesis
    using rc tot cnt by (simp add: yara_json_def Let_def)
qed

theorem yara_total_witness:
  "total_matches (yara_json ''12:00:00'' ''./dump.raw'' ''./out'' ''./out/r.yar'' sample_lines) = 4 \<and>
   rule_summary (yara_json ''12:00:00'' ''./dump.raw'' ''./out'' ''./out/r.yar'' sample_lines) =
     [(''CirrOS_Credentials'', 2), (''0x1f40:$gocubsgo:'', 1), (''Command_History'', 1)]"
  using yara_total_is_sum_of_rule_counts
    [of "''12:00:00''" "''./dump.raw''" "''./out''" "''./out/r.yar''" sample_lines "''CirrOS_Credentials''"]
  by (simp add: sample_lines_def yara_json_def read_matches_def record_line_def py_strip_def
      py_isspace_def split_once_def Let_def)

lemma read_matches_lookup:
  "map_of (matches (read_matches ls)) r =
     (if group_of r (List.map_filter parse_line ls) = [] then None
      else Some (group_of r (List.map_filter parse_line ls)))"
  using tallies_read[of ls] unfolding tallies_def by blast









text \<open>
  Claim C7 as stated does not hold of the script: it has no table from rules to
  categories and no category \<^verbatim>\<open>other\<close>. A match of \<^verbatim>\<open>Command_History\<close>, a rule of the
  script that no flag of \<^verbatim>\<open>key_findings\<close> looks at, is kept under its own name; no
  key \<^verbatim>\<open>other\<close> appears and all flags stay false. The one-word line \<^verbatim>\<open>error\<close> is
  skipped by the guard \<^verbatim>\<open>len(parts) >= 2\<close>.
\<close>

theorem no_other_category_counterexample:
  "detailed_matches
     (yara_json ''12:00:00'' ''./dump.raw'' ''./out'' ''./out/r.yar''
        [''Command_History ./dump.raw'', ''error'']) =
     [(''Command_History'', [''./dump.raw''])] \<and>
   map_of (detailed_matches
     (yara_json ''12:00:00'' ''./dump.raw'' ''./out'' ''./out/r.yar''
        [''Command_History ./dump.raw'', ''error''])) ''other'' = None \<and>
   key_findings
     (yara_json ''12:00:00'' ''./dump.raw'' ''./out'' ''./out/r.yar''
        [''Command_History ./dump.raw'', ''error'']) =
     \<lparr>credentials_found = False, system_config_found = False, process_maps_found = False,
      network_info_found = False, ssh_keys_found = False, potential_malware = False\<rparr>"
  by (simp add: yara_json_def read_matches_def record_line_def py_strip_def
      py_isspace_def split_once_def dict_get_def Let_def)

text \<open>
  Claim C7, amended. Every line of the tool output whose stripped text is not empty
  and contains a space is kept in \<^verbatim>\<open>detailed_matches\<close> under its own first word,
  whether or not that word is a rule the script knows: the list stored under a rule is
  exactly the match texts of the lines that start with it, in the order of the file,
  and the keys are exactly the first words of those lines.
\<close>

theorem parsed_lines_are_kept_under_their_rule:
  assumes "l \<in> set ls" and "parse_line l = Some (r, m)"
  shows "map_of (detailed_matches (yara_json now d a y ls)) r =
           Some (group_of r (List.map_filter parse_line ls)) \<and>
         m \<in> set (group_of r (List.map_filter parse_line ls)) \<and>
         set (map fst (detailed_matches (yara_json now d a y ls))) =
           set (map fst (List.map_filter parse_line ls))"
proof -
  let ?P = "List.map_filter parse_line ls"
  from assms have "(r, m) \<in> set ?P"
    by (force simp: List.map_filter_def)
  then have m: "m \<in> set (group_of r ?P)"
    by (force simp: group_of_def)
  then have ne: "group_of r ?P \<noteq> []" by auto
  have keys: "set (map fst (matches (read_matches ls))) = set (map fst ?P)"
  proof -
    have "\<And>k. k \<in> fst ` set (matches (read_matches ls)) \<longleftrightarrow>
        map_of (matches (read_matches ls)) k \<noteq> None"
      by (simp add: map_of_eq_None_iff)
    then have "\<And>k. k \<in> fst ` set (matches (read_matches ls)) \<longleftrightarrow> group_of k ?P \<noteq> []"
      by (simp add: read_matches_lookup)
    moreover have "\<And>k. group_of k ?P \<noteq> [] \<longleftrightarrow> k \<in> fst ` set ?P"
      by (auto simp: group_of_def filter_empty_conv)
    ultimately show ?thesis by auto
  qed
  show ?thesis
    using m ne keys by (simp add: yara_json_def Let_def read_matches_lookup)
qed

theorem parsed_lines_are_kept_witness:
  "''Command_History ./dump.raw'' \<in> set sample_lines \<and>
   parse_line ''Command_History ./dump.raw'' = Some (''Command_History'', ''./dump.raw'') \<and>
   map_of (detailed_matches (yara_json ''12:00:00'' ''./dump.raw'' ''./out'' ''./out/r.yar'' sample_lines))
     ''Command_History'' = Some [''./dump.raw'']"
proof -
  have a: "''Command_History ./dump.raw'' \<in> set sample_lines"
    by (simp add: sample_lines_def)
  have b: "parse_line ''Command_History ./dump.raw'' = Some (''Command_History'', ''./dump.raw'')"
    by (simp add: parse_line_def py_strip_def py_isspace_def)
  have c: "group_of ''Command_History'' (List.map_filter parse_line sample_lines) = [''./dump.raw'']"
    by (simp add: sample_lines_def List.map_filter_def group_of_def parse_line_def py_strip_def
        py_isspace_def)
  from parsed_lines_are_kept_under_their_rule [OF a b, of "''12:00:00''" "''./dump.raw''" "''./out''" "''./out/r.yar''"]
    a b c show ?thesis by simp
qed

section \<open>Results about the two scripts\<close>


lemma foreground_Some:
  "foreground b cs = Some ws \<Longrightarrow>
   map fst ws = cs \<and> list_all (\<lambda>e. b (fst e) = Ends (fst (snd e)) (snd (snd e))) ws"
  by (induction cs arbitrary: ws) (auto split: ending.splits option.splits)

lemma foreground_None:
  "c \<in> set cs \<Longrightarrow> b c = Hangs \<Longrightarrow> foreground b cs = None"
  by (induction cs) (auto split: ending.splits option.splits)

lemma foreground_total:
  "\<forall>c \<in> set cs. b c \<noteq> Hangs \<Longrightarrow> \<exists>ws. foreground b cs = Some ws"
  by (induction cs) (auto split: ending.splits option.splits)

lemma guarded_tool_is_run:
  assumes "tool \<in> set [''binwalk'', ''foremost'', ''bulk_extractor'', ''yara'']"
    and "command_v w tool"
  shows "tool \<in> set (multi_tool_commands w)"
  using assms by (auto simp: multi_tool_commands_def)

lemma multi_tool_None:
  assumes "arg1 w \<noteq> []" and "regular_file w (arg1 w)"
    and "foreground (behaviour w) (multi_tool_commands w) = None"
  shows "multi_tool_forensic w = None"
  using assms by (simp add: multi_tool_forensic_def Let_def)

lemma multi_tool_Some:
  assumes "arg1 w \<noteq> []" and "regular_file w (arg1 w)"
    and "foreground (behaviour w) (multi_tool_commands w) = Some ws"
  shows "\<exists>r. multi_tool_forensic w = Some r"
  using assms by (simp add: multi_tool_forensic_def Let_def)

lemma multi_tool_result:
  assumes "arg1 w \<noteq> []" and "regular_file w (arg1 w)" and "multi_tool_forensic w = Some r"
  shows "foreground (behaviour w) (multi_tool_commands w) = Some (waited r) \<and>
         exit_status r = 0 \<and>
         json r = Some (if ended_well (behaviour w ''python3'')
                        then update_report w (''./multi_tool_analysis_'' @ stamp w) template
                        else template)"
  using assms by (auto simp: multi_tool_forensic_def Let_def split: option.splits)

text \<open>
  Claim C10. When the first argument of either script is missing (empty) or does not
  name a regular file, the script prints its two usage lines and exits with status 1:
  no directory is made, no tool is started and no JSON is printed.
\<close>

theorem usage_on_bad_argument:
  assumes "arg1 w = [] \<or> \<not> regular_file w (arg1 w)"
  shows "multi_tool_forensic w =
           Some \<lparr>exit_status = 1,
                 console = [''Usage: '' @ script_name w @ '' <memory_dump_file>'',
                            ''Example: '' @ script_name w @ '' ./api_dumps/instance.dump''],
                 directories = [], waited = [], json = None\<rparr> \<and>
         advanced_yara_tool w =
           Some \<lparr>exit_status = 1,
                 console = [''Usage: '' @ script_name w @ '' <memory_dump_file>'',
                            ''Example: '' @ script_name w @ '' ./simple_dumps/test_cirros2.raw''],
                 directories = [], waited = [], json = None\<rparr>"
  using assms by (auto simp: multi_tool_forensic_def advanced_yara_tool_def usage_def)


theorem usage_on_bad_argument_witness:
  "multi_tool_forensic (lab_world\<lparr>arg1 := ''./missing.dump''\<rparr>) =
           Some \<lparr>exit_status = 1,
                 console = [''Usage: ./multi-tool-forensic.sh <memory_dump_file>'',
                            ''Example: ./multi-tool-forensic.sh ./api_dumps/instance.dump''],
                 directories = [], waited = [], json = None\<rparr> \<and>
   advanced_yara_tool (lab_world\<lparr>arg1 := []\<rparr>) =
           Some \<lparr>exit_status = 1,
                 console = [''Usage: ./multi-tool-forensic.sh <memory_dump_file>'',
                            ''Example: ./multi-tool-forensic.sh ./simple_dumps/test_cirros2.raw''],
                 directories = [], waited = [], json = None\<rparr>"
proof -
  have a: "arg1 (lab_world\<lparr>arg1 := ''./missing.dump''\<rparr>) = [] \<or>
      \<not> regular_file (lab_world\<lparr>arg1 := ''./missing.dump''\<rparr>) (arg1 (lab_world\<lparr>arg1 := ''./missing.dump''\<rparr>))"
    by (simp add: lab_world_def)
  have b: "arg1 (lab_world\<lparr>arg1 := []\<rparr>) = [] \<or>
      \<not> regular_file (lab_world\<lparr>arg1 := []\<rparr>) (arg1 (lab_world\<lparr>arg1 := []\<rparr>))"
    by simp
  have n: "script_name lab_world = ''./multi-tool-forensic.sh''"
    by (simp add: lab_world_def)
  from usage_on_bad_argument [OF a] usage_on_bad_argument [OF b] n
  show ?thesis by simp
qed


text \<open>
  Claim C2, amended. \<^verbatim>\<open>multi-tool-forensic.sh\<close> starts \<^verbatim>\<open>binwalk\<close>, \<^verbatim>\<open>foremost\<close>,
  \<^verbatim>\<open>bulk_extractor\<close> and \<^verbatim>\<open>yara\<close> (when installed) as foreground commands without a
  timeout: the script waits for each of them for exactly as long as the tool runs and
  then goes on whatever the exit status, ending with status 0; a tool that never ends
  keeps the script from ever ending; if every command ends, so does the script.
\<close>

theorem tools_are_waited_for_without_limit:
  assumes "arg1 w \<noteq> []" and "regular_file w (arg1 w)"
    and "tool \<in> set [''binwalk'', ''foremost'', ''bulk_extractor'', ''yara'']"
    and "command_v w tool"
  shows "(behaviour w tool = Hangs \<longrightarrow> multi_tool_forensic w = None) \<and>
         ((\<forall>c \<in> set (multi_tool_commands w). behaviour w c \<noteq> Hangs) \<longrightarrow>
            (\<exists>r. multi_tool_forensic w = Some r)) \<and>
         (\<forall>r. multi_tool_forensic w = Some r \<longrightarrow>
            (\<exists>secs st. behaviour w tool = Ends secs st \<and> (tool, secs, st) \<in> set (waited r)) \<and>
            list_all (\<lambda>e. behaviour w (fst e) = Ends (fst (snd e)) (snd (snd e))) (waited r) \<and>
            map fst (waited r) = multi_tool_commands w \<and>
            exit_status r = 0)"
proof -
  have mem: "tool \<in> set (multi_tool_commands w)"
    using assms(3,4) by (rule guarded_tool_is_run)
  have 1: "behaviour w tool = Hangs \<longrightarrow> multi_tool_forensic w = None"
  proof
    assume h: "behaviour w tool = Hangs"
    have "foreground (behaviour w) (multi_tool_commands w) = None"
      using mem h by (rule foreground_None)
    with assms(1,2) show "multi_tool_forensic w = None"
      by (rule multi_tool_None)
  qed
  have 2: "(\<forall>c \<in> set (multi_tool_commands w). behaviour w c \<noteq> Hangs) \<longrightarrow>
            (\<exists>r. multi_tool_forensic w = Some r)"
  proof
    assume "\<forall>c \<in> set (multi_tool_commands w). behaviour w c \<noteq> Hangs"
    then obtain ws where "foreground (behaviour w) (multi_tool_commands w) = Some ws"
      using foreground_total by blast
    with assms(1,2) show "\<exists>r. multi_tool_forensic w = Some r"
      by (rule multi_tool_Some)
  qed
  have 3: "\<forall>r. multi_tool_forensic w = Some r \<longrightarrow>
            (\<exists>secs st. behaviour w tool = Ends secs st \<and> (tool, secs, st) \<in> set (waited r)) \<and>
            list_all (\<lambda>e. behaviour w (fst e) = Ends (fst (snd e)) (snd (snd e))) (waited r) \<and>
            map fst (waited r) = multi_tool_commands w \<and>
            exit_status r = 0"
  proof (intro allI impI)
    fix r assume r: "multi_tool_forensic w = Some r"
    from multi_tool_result [OF assms(1,2) r]
    have ws: "foreground (behaviour w) (multi_tool_commands w) = Some (waited r)"
      and ex: "exit_status r = 0"
      by simp_all
    from foreground_Some [OF ws] have names: "map fst (waited r) = multi_tool_commands w"
      and all: "list_all (\<lambda>e. behaviour w (fst e) = Ends (fst (snd e)) (snd (snd e))) (waited r)"
      by simp_all
    from mem have "tool \<in> set (map fst (waited r))"
      by (simp only: names)
    then obtain e where e: "e \<in> set (waited r)" "fst e = tool"
      by auto
    from all e(1) have "behaviour w (fst e) = Ends (fst (snd e)) (snd (snd e))"
      by (simp add: list_all_iff)
    then have b: "behaviour w tool = Ends (fst (snd e)) (snd (snd e))"
      by (simp only: e(2))
    have "e = (tool, fst (snd e), snd (snd e))"
      using e(2) by (cases e) auto
    with e(1) have m: "(tool, fst (snd e), snd (snd e)) \<in> set (waited r)"
      by simp
    from b m have "\<exists>secs st. behaviour w tool = Ends secs st \<and> (tool, secs, st) \<in> set (waited r)"
      by blast
    with all names ex
    show "(\<exists>secs st. behaviour w tool = Ends secs st \<and> (tool, secs, st) \<in> set (waited r)) \<and>
            list_all (\<lambda>e. behaviour w (fst e) = Ends (fst (snd e)) (snd (snd e))) (waited r) \<and>
            map fst (waited r) = multi_tool_commands w \<and>
            exit_status r = 0"
      by simp
  qed
  from 1 2 3 show ?thesis by simp
qed


theorem tools_are_waited_for_witness:
  "arg1 lab_world \<noteq> [] \<and> regular_file lab_world (arg1 lab_world) \<and>
   command_v lab_world ''binwalk'' \<and>
   behaviour lab_world ''binwalk'' = Ends 86400 0 \<and>
   map_option waited (multi_tool_forensic lab_world) =
     Some [(''binwalk'', 86400, 0), (''foremost'', 20, 1), (''apt-get'', 1, 0), (''yara'', 1, 0),
           (''strings'', 1, 0), (''hexdump'', 1, 0), (''hexdump'', 1, 0), (''hexdump'', 1, 0),
           (''hexdump'', 1, 0), (''python3'', 1, 0), (''python3'', 1, 0)] \<and>
   map_option exit_status (multi_tool_forensic lab_world) = Some 0"
proof -
  have a: "arg1 lab_world \<noteq> []" by (simp add: lab_world_def)
  have b: "regular_file lab_world (arg1 lab_world)" by (simp add: lab_world_def)
  have c: "''binwalk'' \<in> set [''binwalk'', ''foremost'', ''bulk_extractor'', ''yara'']" by simp
  have d: "command_v lab_world ''binwalk''" by (simp add: lab_world_def)
  have e: "behaviour lab_world ''binwalk'' = Ends 86400 0" by (simp add: lab_world_def)
  have f: "multi_tool_commands lab_world =
      [''binwalk'', ''foremost'', ''apt-get'', ''yara'', ''strings'', ''hexdump'', ''hexdump'',
       ''hexdump'', ''hexdump'', ''python3'', ''python3'']"
    by (simp add: multi_tool_commands_def lab_world_def)
  have g: "\<forall>c \<in> set (multi_tool_commands lab_world). behaviour lab_world c \<noteq> Hangs"
    by (simp add: f) (simp add: lab_world_def)
  from tools_are_waited_for_without_limit [OF a b c d] g
  obtain r where r: "multi_tool_forensic lab_world = Some r"
    and l: "list_all (\<lambda>e. behaviour lab_world (fst e) = Ends (fst (snd e)) (snd (snd e))) (waited r)"
    and n: "map fst (waited r) = multi_tool_commands lab_world"
    and x: "exit_status r = 0"
    by blast
  have w: "\<And>c. c \<in> set (multi_tool_commands lab_world) \<Longrightarrow>
      behaviour lab_world c = (if c = ''binwalk'' then Ends 86400 0
                               else if c = ''foremost'' then Ends 20 1 else Ends 1 0)"
    by (simp add: lab_world_def)
  have "waited r = map (\<lambda>c. (c, case behaviour lab_world c of Ends s t \<Rightarrow> s | Hangs \<Rightarrow> 0,
                                 case behaviour lab_world c of Ends s t \<Rightarrow> t | Hangs \<Rightarrow> 0))
                       (multi_tool_commands lab_world)"
    using l unfolding n [symmetric]
    by (induction "waited r") (auto simp: list_all_iff intro!: nth_equalityI)
  then have "waited r =
     [(''binwalk'', 86400, 0), (''foremost'', 20, 1), (''apt-get'', 1, 0), (''yara'', 1, 0),
           (''strings'', 1, 0), (''hexdump'', 1, 0), (''hexdump'', 1, 0), (''hexdump'', 1, 0),
           (''hexdump'', 1, 0), (''python3'', 1, 0), (''python3'', 1, 0)]"
    by (simp add: f) (simp add: lab_world_def)
  with a b d e r x show ?thesis by simp
qed


lemma lab_world_commands:
  "multi_tool_commands lab_world =
      [''binwalk'', ''foremost'', ''apt-get'', ''yara'', ''strings'', ''hexdump'', ''hexdump'',
       ''hexdump'', ''hexdump'', ''python3'', ''python3'']"
  by (simp add: multi_tool_commands_def lab_world_def)

lemma bare_world_commands:
  "multi_tool_commands bare_world =
      [''apt-get'', ''apt-get'', ''apt-get'', ''apt-get'', ''apt-get'', ''strings'', ''hexdump'',
       ''hexdump'', ''hexdump'', ''hexdump'', ''python3'', ''python3'']"
  by (simp add: multi_tool_commands_def bare_world_def lab_world_def and_then_def)

lemma lab_world_waited:
  "foreground (behaviour lab_world) (multi_tool_commands lab_world) =
     Some [(''binwalk'', 86400, 0), (''foremost'', 20, 1), (''apt-get'', 1, 0), (''yara'', 1, 0),
           (''strings'', 1, 0), (''hexdump'', 1, 0), (''hexdump'', 1, 0), (''hexdump'', 1, 0),
           (''hexdump'', 1, 0), (''python3'', 1, 0), (''python3'', 1, 0)]"
  by (simp add: lab_world_commands) (simp add: lab_world_def)

lemma bare_world_waited:
  "foreground (behaviour bare_world) (multi_tool_commands bare_world) =
     Some [(''apt-get'', 1, 0), (''apt-get'', 1, 0), (''apt-get'', 1, 0), (''apt-get'', 1, 0),
           (''apt-get'', 1, 0), (''strings'', 2, 1), (''hexdump'', 1, 0), (''hexdump'', 1, 0),
           (''hexdump'', 1, 0), (''hexdump'', 1, 0), (''python3'', 1, 0), (''python3'', 1, 0)]"
  by (simp add: bare_world_commands) (simp add: bare_world_def lab_world_def)

text \<open>
  Claim C2 as stated does not hold of the script. With a \<^verbatim>\<open>binwalk\<close> that needs a day
  and a \<^verbatim>\<open>foremost\<close> that fails, the script waits the whole day (so no limit of an
  hour, or of any time below a day, is kept), nothing is killed, and the run ends with
  status 0 and \<^verbatim>\<open>analysis_complete\<close> true: no failure and no timeout is recorded.
\<close>

theorem no_timeout_counterexample:
  "map_option waited (multi_tool_forensic lab_world) =
     Some [(''binwalk'', 86400, 0), (''foremost'', 20, 1), (''apt-get'', 1, 0), (''yara'', 1, 0),
           (''strings'', 1, 0), (''hexdump'', 1, 0), (''hexdump'', 1, 0), (''hexdump'', 1, 0),
           (''hexdump'', 1, 0), (''python3'', 1, 0), (''python3'', 1, 0)] \<and>
   map_option (kept_within 3600) (multi_tool_forensic lab_world) = Some False \<and>
   map_option elapsed (multi_tool_forensic lab_world) = Some 86429 \<and>
   map_option exit_status (multi_tool_forensic lab_world) = Some 0 \<and>
   map_option (\<lambda>r. map_option (\<lambda>d. map_option analysis_complete (results_summary d)) (json r))
     (multi_tool_forensic lab_world) = Some (Some (Some True))"
proof -
  have a: "arg1 lab_world \<noteq> []" and b: "regular_file lab_world (arg1 lab_world)"
    and p: "ended_well (behaviour lab_world ''python3'')"
    by (simp_all add: lab_world_def ended_well_def)
  show ?thesis
    using a b p lab_world_waited
    by (simp add: multi_tool_forensic_def Let_def kept_within_def elapsed_def update_report_def)
qed

text \<open>
  Claim C3, amended. Whenever \<^verbatim>\<open>multi-tool-forensic.sh\<close> gets past its argument check,
  comes to its end and its report step runs, it exits with status 0 and its summary
  says \<^verbatim>\<open>analysis_complete\<close> with \<^verbatim>\<open>total_tools_used = 7\<close>, the length of the fixed list
  \<^verbatim>\<open>tools_used\<close>, whichever tools were installed, failed or succeeded. The summary has
  no count of succeeded or failed tools.
\<close>

theorem summary_is_fixed:
  assumes "arg1 w \<noteq> []" and "regular_file w (arg1 w)"
    and "multi_tool_forensic w = Some r" and "ended_well (behaviour w ''python3'')"
  shows "exit_status r = 0 \<and>
         map_option results_summary (json r) =
           Some (Some \<lparr>summary_analysis_directory = ''./multi_tool_analysis_'' @ stamp w,
                       total_tools_used = 7,
                       analysis_complete = True,
                       file_carving_attempted = True,
                       pattern_matching_completed = True,
                       string_extraction_completed = True,
                       custom_analysis_completed = True\<rparr>) \<and>
         map_option tools_used (json r) =
           Some [''binwalk'', ''foremost'', ''bulk_extractor'', ''yara'', ''strings'',
                 ''hexdump'', ''custom_analysis'']"
  using multi_tool_result [OF assms(1,2,3)] assms(4)
  by (simp add: update_report_def Let_def)

theorem summary_is_fixed_witness:
  "arg1 bare_world \<noteq> [] \<and> regular_file bare_world (arg1 bare_world) \<and>
   ended_well (behaviour bare_world ''python3'') \<and>
   map_option (\<lambda>r. map_option (\<lambda>d. map_option total_tools_used (results_summary d)) (json r))
     (multi_tool_forensic bare_world) = Some (Some (Some 7)) \<and>
   map_option (\<lambda>r. map_option (\<lambda>d. map_option analysis_complete (results_summary d)) (json r))
     (multi_tool_forensic bare_world) = Some (Some (Some True)) \<and>
   map_option exit_status (multi_tool_forensic bare_world) = Some 0"
proof -
  have a: "arg1 bare_world \<noteq> []" and b: "regular_file bare_world (arg1 bare_world)"
    and p: "ended_well (behaviour bare_world ''python3'')"
    by (simp_all add: bare_world_def lab_world_def ended_well_def)
  from multi_tool_Some [OF a b bare_world_waited]
  obtain r where r: "multi_tool_forensic bare_world = Some r" by blast
  from summary_is_fixed [OF a b r p] a b p r show ?thesis
    by auto
qed

text \<open>
  Claim C3 as stated does not hold of the script. In a run where none of the four
  guarded tools is installed, three tools run (\<^verbatim>\<open>strings\<close>, \<^verbatim>\<open>hexdump\<close>, \<^verbatim>\<open>python3\<close>),
  one of them fails and two succeed; the summary still counts 7 tools and records no
  failure.
\<close>

theorem summary_counts_counterexample:
  "map_option tools_run (multi_tool_forensic bare_world) =
     Some [''strings'', ''hexdump'', ''python3''] \<and>
   map_option tools_failed (multi_tool_forensic bare_world) = Some [''strings''] \<and>
   map_option (\<lambda>r. map_option (\<lambda>d. map_option total_tools_used (results_summary d)) (json r))
     (multi_tool_forensic bare_world) = Some (Some (Some 7)) \<and>
   map_option (\<lambda>r. map_option (\<lambda>d. map_option analysis_complete (results_summary d)) (json r))
     (multi_tool_forensic bare_world) = Some (Some (Some True)) \<and>
   map_option exit_status (multi_tool_forensic bare_world) = Some 0"
proof -
  have a: "arg1 bare_world \<noteq> []" and b: "regular_file bare_world (arg1 bare_world)"
    and p: "ended_well (behaviour bare_world ''python3'')"
    by (simp_all add: bare_world_def lab_world_def ended_well_def)
  show ?thesis
    using a b p bare_world_waited
    by (simp add: multi_tool_forensic_def Let_def update_report_def tools_run_def tools_failed_def)
qed

section \<open>Results about the job state machine\<close>


lemma progress_after_le: "k \<le> length (analysis_phases cfg) \<Longrightarrow> progress_after cfg k \<le> 75"
proof -
  assume k: "k \<le> length (analysis_phases cfg)"
  let ?n = "length (analysis_phases cfg)"
  have "(50 * k) div ?n \<le> 50"
  proof (cases "?n = 0")
    case True then show ?thesis by simp
  next
    case False
    from k have "50 * k \<le> 50 * ?n" by simp
    then have "(50 * k) div ?n \<le> (50 * ?n) div ?n" by (rule div_le_mono)
    with False show ?thesis by simp
  qed
  then show ?thesis by (simp add: progress_after_def)
qed

lemma progress_after_mono: "progress_after cfg k \<le> progress_after cfg (Suc k)"
  by (simp add: progress_after_def div_le_mono)

lemma progress_after_0: "progress_after cfg 0 = 25"
  by (simp add: progress_after_def)

lemma new_job_inv: "job_inv cfg (new_job i subject now)"
  by (simp add: job_inv_def new_job_def)

lemma fail_job_inv: "job_inv cfg j \<Longrightarrow> job_inv cfg (fail_job cfg now e j)"
  by (simp add: job_inv_def fail_job_def)

lemma fail_job_progress: "progressPercent (fail_job cfg now e j) = progressPercent j"
  by (simp add: fail_job_def)

lemma complete_job_inv:
  "job_inv cfg j \<Longrightarrow> phase j = Reporting \<Longrightarrow> job_inv cfg (complete_job now b j)"
  by (simp add: job_inv_def complete_job_def)

lemma phase_done_inv:
  assumes "job_inv cfg j" and "phase j = Analyzing"
  shows "job_inv cfg (phase_done cfg now out pr j)"
proof (cases "length (collected j) < length (analysis_phases cfg)")
  case False
  with assms show ?thesis by (simp add: phase_done_def)
next
  case True
  then have le: "Suc (length (collected j)) \<le> length (analysis_phases cfg)" by simp
  from assms have e: "errorDetail j = None" by (simp add: job_inv_def)
  show ?thesis
  proof (cases "out = Failure \<and> analysis_phases cfg ! length (collected j) \<noteq> BestEffort")
    case True
    with \<open>length (collected j) < length (analysis_phases cfg)\<close> assms(1)
    show ?thesis by (simp add: phase_done_def Let_def fail_job_inv)
  next
    case False
    with \<open>length (collected j) < length (analysis_phases cfg)\<close> e progress_after_le [OF le]
    show ?thesis
      by (auto simp: phase_done_def Let_def job_inv_def)
  qed
qed

lemma phase_done_progress:
  assumes "job_inv cfg j" and "phase j = Analyzing"
  shows "progressPercent j \<le> progressPercent (phase_done cfg now out pr j)"
proof -
  from assms have p: "progressPercent j = progress_after cfg (length (collected j))"
    by (simp add: job_inv_def)
  show ?thesis
    using progress_after_mono [of cfg "length (collected j)"]
    by (simp add: phase_done_def Let_def fail_job_progress p)
qed

lemma job_step_inv: "job_inv cfg j \<Longrightarrow> job_inv cfg (job_step cfg now ev j)"
proof -
  assume i: "job_inv cfg j"
  show ?thesis
  proof (cases "terminal (phase j)")
    case True then show ?thesis using i by (simp add: job_step_def)
  next
    case False
    then have nt: "phase j \<noteq> Completed" "phase j \<noteq> Failed" "phase j \<noteq> Cancelled"
      by (simp_all add: terminal_def)
    show ?thesis
    proof (cases ev)
      case Dequeued
      with False i nt show ?thesis by (simp add: job_step_def job_inv_def)
    next
      case (Acquired info)
      with False i nt show ?thesis
        by (simp add: job_step_def job_inv_def progress_after_0)
    next
      case AcquisitionError
      with False i show ?thesis by (simp add: job_step_def fail_job_inv)
    next
      case (PhaseDone out pr)
      with False i show ?thesis by (simp add: job_step_def phase_done_inv)
    next
      case Rendered
      with False i show ?thesis by (simp add: job_step_def complete_job_inv)
    next
      case RenderError
      with False i show ?thesis by (simp add: job_step_def complete_job_inv fail_job_inv)
    next
      case CancelRequest
      with False i nt show ?thesis by (simp add: job_step_def job_inv_def)
    qed
  qed
qed

lemma job_step_mono:
  "job_inv cfg j \<Longrightarrow> progressPercent j \<le> progressPercent (job_step cfg now ev j)"
proof -
  assume i: "job_inv cfg j"
  then have le: "progressPercent j \<le> 100" by (simp add: job_inv_def)
  show ?thesis
  proof (cases ev)
    case (Acquired info)
    with i show ?thesis by (simp add: job_step_def job_inv_def)
  next
    case (PhaseDone out pr)
    with i show ?thesis by (simp add: job_step_def phase_done_progress)
  qed (simp_all add: job_step_def fail_job_progress complete_job_def le)
qed

lemma job_trace_inv:
  "job_inv cfg j \<Longrightarrow> list_all (job_inv cfg) (job_trace cfg j es)"
  by (induction es arbitrary: j) (simp_all add: job_step_inv)

lemma job_trace_lower:
  "job_inv cfg j \<Longrightarrow> list_all (\<lambda>k. progressPercent j \<le> progressPercent k) (job_trace cfg j es)"
proof (induction es arbitrary: j)
  case Nil then show ?case by simp
next
  case (Cons e es)
  from Cons.prems have s: "job_inv cfg (job_step cfg (fst e) (snd e) j)" by (rule job_step_inv)
  from Cons.prems have m: "progressPercent j \<le> progressPercent (job_step cfg (fst e) (snd e) j)"
    by (rule job_step_mono)
  from Cons.IH [OF s] m show ?case
    by (auto simp: list_all_iff intro: order_trans)
qed

lemma job_trace_sorted:
  "job_inv cfg j \<Longrightarrow> sorted (map progressPercent (job_trace cfg j es))"
proof (induction es arbitrary: j)
  case Nil then show ?case by simp
next
  case (Cons e es)
  from Cons.prems have s: "job_inv cfg (job_step cfg (fst e) (snd e) j)" by (rule job_step_inv)
  from Cons.prems have m: "progressPercent j \<le> progressPercent (job_step cfg (fst e) (snd e) j)"
    by (rule job_step_mono)
  from job_trace_lower [OF s, of es] m
  have "\<forall>k \<in> set (job_trace cfg (job_step cfg (fst e) (snd e) j) es).
          progressPercent j \<le> progressPercent k"
    by (auto simp: list_all_iff intro: order_trans)
  with Cons.IH [OF s] show ?case by simp
qed

text \<open>
  Claim C1. Over the states of a job observed while any sequence of events arrives,
  starting from its submission, the progress percentage never decreases from one
  state to the next and is at most 100 (it is a natural number, so at least 0).
\<close>

theorem progress_is_monotone_and_bounded:
  "sorted (map progressPercent (job_trace cfg (new_job i subject t) es)) \<and>
   list_all (\<lambda>j. progressPercent j \<le> 100) (job_trace cfg (new_job i subject t) es)"
proof -
  have "list_all (job_inv cfg) (job_trace cfg (new_job i subject t) es)"
    using new_job_inv by (rule job_trace_inv)
  then have "list_all (\<lambda>j. progressPercent j \<le> 100) (job_trace cfg (new_job i subject t) es)"
    by (simp add: list_all_iff job_inv_def)
  moreover have "sorted (map progressPercent (job_trace cfg (new_job i subject t) es))"
    using new_job_inv by (rule job_trace_sorted)
  ultimately show ?thesis by simp
qed


lemma demo_trace_progress:
  "map progressPercent (job_trace demo_config (new_job 0 ''vm-a'' 0) demo_events) =
     [0, 0, 25, 50, 75, 100]"
  by (simp add: demo_events_def demo_config_def new_job_def job_step_def terminal_def
      phase_done_def progress_after_def complete_job_def fail_job_def Let_def demo_phase_def numeral_2_eq_2 [symmetric])


section \<open>Results about the orchestrator\<close>


lemma job_step_id: "jobId (job_step cfg now ev j) = jobId j"
  by (cases ev) (simp_all add: job_step_def phase_done_def fail_job_def complete_job_def Let_def)

lemma job_step_started:
  "ev \<noteq> Dequeued \<Longrightarrow> startedAt (job_step cfg now ev j) = startedAt j"
  by (cases ev) (simp_all add: job_step_def phase_done_def fail_job_def complete_job_def Let_def)

lemma job_step_pending:
  "phase (job_step cfg now ev j) = Pending \<Longrightarrow> phase j = Pending"
  by (cases ev)
    (auto simp: job_step_def phase_done_def fail_job_def complete_job_def Let_def terminal_def
      split: if_splits)

lemma job_step_slot:
  "ev \<noteq> Dequeued \<Longrightarrow> occupies_slot (phase (job_step cfg now ev j)) \<Longrightarrow> occupies_slot (phase j)"
  by (cases ev)
    (auto simp: job_step_def phase_done_def fail_job_def complete_job_def Let_def terminal_def
      occupies_slot_def split: if_splits)

lemma job_step_dequeued:
  "phase j = Pending \<Longrightarrow>
   phase (job_step cfg now Dequeued j) = Acquiring \<and> startedAt (job_step cfg now Dequeued j) = Some now"
  by (simp add: job_step_def terminal_def)

lemma table_orch_step:
  "table (orch_step cfg s rq) =
     (case rq of
        Submit subject \<Rightarrow>
          (if length (table s) \<ge> table_cap cfg then table s
           else table s @ [new_job (length (table s)) subject (clock s)])
      | Dispatch \<Rightarrow>
          (if slots_in_use (table s) < pool_size cfg then admit_first cfg (clock s) (table s)
           else table s)
      | Report i ev \<Rightarrow>
          (if ev = Dequeued then table s
           else map (\<lambda>j. if jobId j = i then job_step cfg (clock s) ev j else j) (table s))
      | Cancel i \<Rightarrow>
          map (\<lambda>j. if jobId j = i then job_step cfg (clock s) CancelRequest j else j) (table s))"
  by (simp add: orch_step_def submit_def dispatch_def report_def Let_def
      split: request.splits job_event.splits)

lemma orch_run_snoc: "orch_run cfg (rqs @ [rq]) = orch_step cfg (orch_run cfg rqs) rq"
  by (simp add: orch_run_def)

lemma orch_run_nil: "table (orch_run cfg []) = []"
  by (simp add: orch_run_def)

subsection \<open>Job ids are positions in the table\<close>

lemma admit_first_ids: "map jobId (admit_first cfg now js) = map jobId js"
  by (induction js) (simp_all add: job_step_id)

lemma deliver_ids':
  "map (\<lambda>x. jobId (if jobId x = i then job_step cfg now ev x else x)) js = map jobId js"
  by (induction js) (simp_all add: job_step_id)

lemma step_ids:
  assumes "map jobId (table s) = [0..<length (table s)]"
  shows "map jobId (table (orch_step cfg s rq)) = [0..<length (table (orch_step cfg s rq))]"
proof (cases rq)
  case (Submit subject)
  with assms show ?thesis by (simp add: table_orch_step new_job_def)
next
  case Dispatch
  have "length (admit_first cfg (clock s) (table s)) = length (table s)"
    using admit_first_ids [of cfg "clock s" "table s"] by (metis length_map)
  with Dispatch assms show ?thesis by (simp add: table_orch_step admit_first_ids)
next
  case (Report i ev)
  with assms show ?thesis by (simp add: table_orch_step deliver_ids' o_def)
next
  case (Cancel i)
  with assms show ?thesis by (simp add: table_orch_step deliver_ids' o_def)
qed

lemma run_ids: "map jobId (table (orch_run cfg rqs)) = [0..<length (table (orch_run cfg rqs))]"
  by (induction rqs rule: rev_induct) (simp_all add: orch_run_nil orch_run_snoc step_ids)

subsection \<open>Every job in the table satisfies the job invariant\<close>

lemma admit_first_inv: "list_all (job_inv cfg) js \<Longrightarrow> list_all (job_inv cfg) (admit_first cfg now js)"
  by (induction js) (simp_all add: job_step_inv)

lemma deliver_inv:
  "list_all (job_inv cfg) js \<Longrightarrow>
   list_all (job_inv cfg) (map (\<lambda>j. if jobId j = i then job_step cfg now ev j else j) js)"
  by (induction js) (simp_all add: job_step_inv)

lemma step_inv:
  assumes "list_all (job_inv cfg) (table s)"
  shows "list_all (job_inv cfg) (table (orch_step cfg s rq))"
  using assms
  by (cases rq) (simp_all add: table_orch_step new_job_inv admit_first_inv deliver_inv)

lemma run_inv: "list_all (job_inv cfg) (table (orch_run cfg rqs))"
  by (induction rqs rule: rev_induct) (simp_all add: orch_run_nil orch_run_snoc step_inv)

subsection \<open>Slots in use\<close>

lemma slots_snoc_new: "slots_in_use (js @ [new_job i subject now]) = slots_in_use js"
  by (simp add: slots_in_use_def new_job_def occupies_slot_def)

lemma slots_admit_first: "slots_in_use (admit_first cfg now js) \<le> Suc (slots_in_use js)"
  by (induction js) (auto simp: slots_in_use_def job_step_dequeued occupies_slot_def)

lemma slots_deliver:
  "ev \<noteq> Dequeued \<Longrightarrow>
   slots_in_use (map (\<lambda>j. if jobId j = i then job_step cfg now ev j else j) js) \<le> slots_in_use js"
proof (induction js)
  case Nil then show ?case by (simp add: slots_in_use_def)
next
  case (Cons j js)
  from Cons have ih: "slots_in_use (map (\<lambda>j. if jobId j = i then job_step cfg now ev j else j) js)
      \<le> slots_in_use js" by simp
  from Cons.prems have "occupies_slot (phase (job_step cfg now ev j)) \<Longrightarrow> occupies_slot (phase j)"
    by (rule job_step_slot)
  with ih show ?case by (auto simp: slots_in_use_def)
qed

lemma step_slots:
  assumes "slots_in_use (table s) \<le> pool_size cfg"
  shows "slots_in_use (table (orch_step cfg s rq)) \<le> pool_size cfg"
proof (cases rq)
  case (Submit subject)
  with assms show ?thesis by (simp add: table_orch_step slots_snoc_new)
next
  case Dispatch
  show ?thesis
  proof (cases "slots_in_use (table s) < pool_size cfg")
    case True
    with slots_admit_first [of cfg "clock s" "table s"] Dispatch show ?thesis
      by (simp add: table_orch_step)
  next
    case False
    with assms Dispatch show ?thesis by (simp add: table_orch_step)
  qed
next
  case (Report i ev)
  show ?thesis
  proof (cases "ev = Dequeued")
    case True with assms Report show ?thesis by (simp add: table_orch_step)
  next
    case False
    from slots_deliver [OF False, of i cfg "clock s" "table s"] assms Report False
    show ?thesis by (simp add: table_orch_step)
  qed
next
  case (Cancel i)
  have "CancelRequest \<noteq> Dequeued" by simp
  from slots_deliver [OF this, of i cfg "clock s" "table s"] assms Cancel
  show ?thesis by (simp add: table_orch_step)
qed

lemma run_slots: "slots_in_use (table (orch_run cfg rqs)) \<le> pool_size cfg"
proof (induction rqs rule: rev_induct)
  case Nil
  then show ?case by (simp add: orch_run_nil slots_in_use_def)
next
  case (snoc rq rqs)
  then show ?case by (simp add: orch_run_snoc step_slots)
qed

subsection \<open>Admission order\<close>

lemma fifo_snoc: "fifo js \<Longrightarrow> startedAt j = None \<Longrightarrow> fifo (js @ [j])"
  by (induction js) auto

lemma fifo_admit_first: "fifo js \<Longrightarrow> fifo (admit_first cfg now js)"
  by (induction js) (auto simp: job_step_dequeued)

lemma deliver_unstarted:
  "ev \<noteq> Dequeued \<Longrightarrow> list_all (\<lambda>k. startedAt k = None) js \<Longrightarrow>
   list_all (\<lambda>k. startedAt k = None)
     (map (\<lambda>j. if jobId j = i then job_step cfg now ev j else j) js)"
  by (induction js) (simp_all add: job_step_started)

lemma fifo_deliver:
  assumes "ev \<noteq> Dequeued"
  shows "fifo js \<Longrightarrow> fifo (map (\<lambda>j. if jobId j = i then job_step cfg now ev j else j) js)"
proof (induction js)
  case Nil then show ?case by simp
next
  case (Cons j js)
  let ?f = "\<lambda>j. if jobId j = i then job_step cfg now ev j else j"
  from Cons have t: "fifo (map ?f js)" by simp
  have s: "\<And>k. startedAt (?f k) = startedAt k"
    using assms by (simp add: job_step_started)
  have p: "phase (?f j) = Pending \<Longrightarrow> phase j = Pending"
    by (auto dest: job_step_pending split: if_splits)
  have "phase (?f j) \<noteq> Pending \<or> list_all (\<lambda>k. startedAt k = None) (map ?f js)"
  proof (cases "phase (?f j) = Pending")
    case True
    with p have "phase j = Pending" by simp
    with Cons.prems have "list_all (\<lambda>k. startedAt k = None) js" by simp
    with assms have "list_all (\<lambda>k. startedAt k = None) (map ?f js)"
      by (rule deliver_unstarted)
    then show ?thesis by simp
  next
    case False then show ?thesis by simp
  qed
  with t show ?case by simp
qed

lemma step_fifo:
  assumes "fifo (table s)"
  shows "fifo (table (orch_step cfg s rq))"
proof (cases rq)
  case (Submit subject)
  with assms show ?thesis by (simp add: table_orch_step fifo_snoc new_job_def)
next
  case Dispatch
  with assms show ?thesis by (simp add: table_orch_step fifo_admit_first)
next
  case (Report i ev)
  with assms show ?thesis by (simp add: table_orch_step fifo_deliver)
next
  case (Cancel i)
  with assms show ?thesis by (simp add: table_orch_step fifo_deliver)
qed

lemma run_fifo: "fifo (table (orch_run cfg rqs))"
  by (induction rqs rule: rev_induct) (simp_all add: orch_run_nil orch_run_snoc step_fifo)

subsection \<open>The table only grows\<close>

lemma step_length: "length (table s) \<le> length (table (orch_step cfg s rq))"
proof (cases rq)
  case Dispatch
  have "length (admit_first cfg (clock s) (table s)) = length (table s)"
    using admit_first_ids [of cfg "clock s" "table s"] by (metis length_map)
  with Dispatch show ?thesis by (simp add: table_orch_step)
qed (simp_all add: table_orch_step)

lemma run_length:
  "length (table (orch_run cfg rqs)) \<le> length (table (orch_run cfg (rqs @ later)))"
proof (induction later rule: rev_induct)
  case Nil then show ?case by simp
next
  case (snoc rq later)
  have "orch_run cfg (rqs @ later @ [rq]) = orch_step cfg (orch_run cfg (rqs @ later)) rq"
    using orch_run_snoc [of cfg "rqs @ later" rq] by simp
  with snoc step_length [of "orch_run cfg (rqs @ later)" cfg rq] show ?case
    by simp
qed

lemma find_by_id:
  "map jobId js = [k..<k + length js] \<Longrightarrow>
   find (\<lambda>j. jobId j = i) js = (if k \<le> i \<and> i < k + length js then Some (js ! (i - k)) else None)"
proof (induction js arbitrary: k)
  case Nil then show ?case by simp
next
  case (Cons j js)
  have "[k..<k + length (j # js)] = k # [Suc k..<Suc k + length js]"
    by (simp add: upt_rec)
  with Cons.prems have h: "jobId j = k" and t: "map jobId js = [Suc k..<Suc k + length js]"
    by simp_all
  from Cons.IH [OF t] h show ?case
    by (auto simp: nth_Cons' Suc_diff_le)
qed


theorem progress_witness:
  "map progressPercent (job_trace demo_config (new_job 0 ''vm-a'' 0) demo_events) =
     [0, 0, 25, 50, 75, 100] \<and>
   sorted (map progressPercent (job_trace demo_config (new_job 0 ''vm-a'' 0) demo_events)) \<and>
   list_all (\<lambda>j. progressPercent j \<le> 100)
     (job_trace demo_config (new_job 0 ''vm-a'' 0) demo_events)"
  using progress_is_monotone_and_bounded [of demo_config 0 "''vm-a''" 0 demo_events]
    demo_trace_progress
  by simp


text \<open>
  Claim C4. After any sequence of requests: for an id that was never given out, the
  status and result queries fail with \<open>NotFound\<close>; for a job that is not \<open>Completed\<close>
  the result query fails with \<open>NotReady\<close>; for a \<open>Completed\<close> job it returns the
  job's result document.
\<close>

theorem result_queries:
  "(i \<ge> length (table (orch_run cfg rqs)) \<longrightarrow>
      get_status (orch_run cfg rqs) i = Inl NotFound \<and>
      get_result (orch_run cfg rqs) i = Inl NotFound) \<and>
   (i < length (table (orch_run cfg rqs)) \<longrightarrow>
      get_status (orch_run cfg rqs) i = Inr (table (orch_run cfg rqs) ! i) \<and>
      (phase (table (orch_run cfg rqs) ! i) \<noteq> Completed \<longrightarrow>
         get_result (orch_run cfg rqs) i = Inl NotReady) \<and>
      (phase (table (orch_run cfg rqs) ! i) = Completed \<longrightarrow>
         (\<exists>r. result (table (orch_run cfg rqs) ! i) = Some r \<and>
              get_result (orch_run cfg rqs) i = Inr r)))"
proof -
  let ?s = "orch_run cfg rqs"
  have "map jobId (table ?s) = [0..<0 + length (table ?s)]"
    using run_ids [of cfg rqs] by simp
  from find_by_id [OF this, of i]
  have f: "find (\<lambda>j. jobId j = i) (table ?s) =
      (if i < length (table ?s) then Some (table ?s ! i) else None)"
    by simp
  have "i < length (table ?s) \<Longrightarrow> job_inv cfg (table ?s ! i)"
    using run_inv [of cfg rqs] by (simp add: list_all_length)
  then have c: "i < length (table ?s) \<Longrightarrow> phase (table ?s ! i) = Completed \<Longrightarrow>
      \<exists>r. result (table ?s ! i) = Some r"
    by (auto simp: job_inv_def)
  show ?thesis
    using f c by (auto simp: get_status_def get_result_def)
qed


lemmas demo_simps =
  orch_run_def orch_step_def submit_def dispatch_def report_def slots_in_use_def
  occupies_slot_def job_step_def terminal_def phase_done_def fail_job_def complete_job_def
  progress_after_def aggregate_def new_job_def demo_config_def demo_requests_def demo_phase_def
  Let_def

lemma demo_run_phases:
  "map phase (table (orch_run demo_config demo_requests)) = [Completed, Acquiring, Acquiring]"
  by (simp add: demo_simps)

lemma demo_mid_phases:
  "map phase (table (orch_run demo_config (take 8 demo_requests))) = [Analyzing, Acquiring, Pending]"
  by (simp add: demo_simps)

lemma demo_run_result:
  "result (table (orch_run demo_config demo_requests) ! 0) =
     Some \<lparr>doc_subjectRef = ''vm-a'', acquisitionInfo = ''/tmp/a.raw'',
           phaseResults = [demo_phase ''multi-tool'' Success, demo_phase ''patterns'' Success],
           shortfall = [], reportError = False, generatedAt = 9\<rparr>"
  by (simp add: demo_simps)

theorem result_queries_witness:
  "get_result (orch_run demo_config (take 8 demo_requests)) 0 = Inl NotReady \<and>
   get_result (orch_run demo_config demo_requests) 0 =
     Inr \<lparr>doc_subjectRef = ''vm-a'', acquisitionInfo = ''/tmp/a.raw'',
          phaseResults = [demo_phase ''multi-tool'' Success, demo_phase ''patterns'' Success],
          shortfall = [], reportError = False, generatedAt = 9\<rparr> \<and>
   get_result (orch_run demo_config demo_requests) 1 = Inl NotReady \<and>
   get_result (orch_run demo_config demo_requests) 7 = Inl NotFound \<and>
   get_status (orch_run demo_config demo_requests) 7 = Inl NotFound"
proof -
  let ?s = "orch_run demo_config demo_requests"
  let ?m = "orch_run demo_config (take 8 demo_requests)"
  have ls: "length (table ?s) = 3"
    using demo_run_phases by (metis length_map length_Cons list.size(3) numeral_3_eq_3)
  have lm: "length (table ?m) = 3"
    using demo_mid_phases by (metis length_map length_Cons list.size(3) numeral_3_eq_3)
  have p0: "phase (table ?s ! 0) = Completed" and p1: "phase (table ?s ! 1) = Acquiring"
    using demo_run_phases ls by (metis nth_map nth_Cons_0 zero_less_numeral,
        metis nth_map nth_Cons_0 nth_Cons_Suc One_nat_def one_less_numeral_iff semiring_norm(77))
  have m0: "phase (table ?m ! 0) = Analyzing"
    using demo_mid_phases lm by (metis nth_map nth_Cons_0 zero_less_numeral)
  from result_queries [where i = 0 and cfg = demo_config and rqs = "take 8 demo_requests"] lm m0
  have a: "get_result ?m 0 = Inl NotReady" by simp
  from result_queries [where i = 0 and cfg = demo_config and rqs = demo_requests] ls p0 demo_run_result
  have b: "get_result ?s 0 =
     Inr \<lparr>doc_subjectRef = ''vm-a'', acquisitionInfo = ''/tmp/a.raw'',
          phaseResults = [demo_phase ''multi-tool'' Success, demo_phase ''patterns'' Success],
          shortfall = [], reportError = False, generatedAt = 9\<rparr>" by auto
  from result_queries [where i = 1 and cfg = demo_config and rqs = demo_requests] ls p1
  have c: "get_result ?s 1 = Inl NotReady" by simp
  from result_queries [where i = 7 and cfg = demo_config and rqs = demo_requests] ls
  have d: "get_result ?s 7 = Inl NotFound" "get_status ?s 7 = Inl NotFound" by simp_all
  from a b c d show ?thesis by simp
qed

text \<open>
  Claim C9. After any sequence of requests, of any length and with any number of
  submissions, at most \<open>pool_size\<close> jobs are in \<open>Acquiring\<close>, \<open>Analyzing\<close> or
  \<open>Reporting\<close>; admission is FIFO (no job has been started while an earlier one is
  still \<open>Pending\<close>); a dispatch with a full pool changes nothing; and the table never
  loses a job, so every job, pending or not, stays listed under its id.
\<close>

theorem pool_bound_and_fifo:
  "slots_in_use (table (orch_run cfg rqs)) \<le> pool_size cfg \<and>
   fifo (table (orch_run cfg rqs)) \<and>
   (pool_size cfg \<le> slots_in_use (table (orch_run cfg rqs)) \<longrightarrow>
      table (orch_run cfg (rqs @ [Dispatch])) = table (orch_run cfg rqs)) \<and>
   length (table (orch_run cfg rqs)) \<le> length (table (orch_run cfg (rqs @ later))) \<and>
   map jobId (table (orch_run cfg rqs)) = [0..<length (table (orch_run cfg rqs))]"
proof -
  have "pool_size cfg \<le> slots_in_use (table (orch_run cfg rqs)) \<longrightarrow>
      table (orch_run cfg (rqs @ [Dispatch])) = table (orch_run cfg rqs)"
    by (simp add: orch_run_snoc table_orch_step)
  with run_slots [of cfg rqs] run_fifo [of cfg rqs] run_length [of cfg rqs later] run_ids [of cfg rqs]
  show ?thesis by simp
qed

theorem pool_bound_witness:
  "pool_size demo_config = 2 \<and>
   map phase (table (orch_run demo_config (take 5 demo_requests))) = [Acquiring, Acquiring, Pending] \<and>
   slots_in_use (table (orch_run demo_config (take 5 demo_requests))) = 2 \<and>
   map phase (table (orch_run demo_config (take 5 demo_requests @ [Dispatch]))) =
     [Acquiring, Acquiring, Pending] \<and>
   fifo (table (orch_run demo_config (take 5 demo_requests))) \<and>
   map phase (table (orch_run demo_config demo_requests)) = [Completed, Acquiring, Acquiring] \<and>
   slots_in_use (table (orch_run demo_config demo_requests)) \<le> 2"
proof -
  have n: "pool_size demo_config = 2" by (simp add: demo_config_def)
  have e: "map phase (table (orch_run demo_config (take 5 demo_requests))) =
      [Acquiring, Acquiring, Pending]"
    by (simp add: demo_simps)
  have u: "slots_in_use (table (orch_run demo_config (take 5 demo_requests))) = 2"
    by (simp add: demo_simps)
  from pool_bound_and_fifo [of demo_config "take 5 demo_requests" "[]"] n u e
  have 1: "map phase (table (orch_run demo_config (take 5 demo_requests @ [Dispatch]))) =
     [Acquiring, Acquiring, Pending]"
    and 2: "fifo (table (orch_run demo_config (take 5 demo_requests)))"
    by simp_all
  from pool_bound_and_fifo [of demo_config demo_requests "[]"] n
  have 3: "slots_in_use (table (orch_run demo_config demo_requests)) \<le> 2" by simp
  from n e u 1 2 3 demo_run_phases show ?thesis by simp
qed

end
